theory Spec2Isabelle
  imports
    Complex_Main
    "HOL-Library.Product_Lexorder"
    "HOL-Library.Char_ord"
    "HOL-Library.List_Lexorder"
begin

section \<open>Strings\<close>

text \<open>
  Python strings are modelled as \<^typ>\<open>string\<close> restricted to ASCII: \<open>str.lower\<close>,
  \<open>str.isspace\<close>, \<open>str.isalnum\<close> and the regular-expression classes \<open>\d\<close> and \<open>\s\<close>
  are given on the ASCII range only.
\<close>

definition is_digit :: "char \<Rightarrow> bool" where
  "is_digit c = (CHR ''0'' \<le> c \<and> c \<le> CHR ''9'')"

definition digit_val :: "char \<Rightarrow> nat" where
  "digit_val c = of_char c - 48"

definition is_upper :: "char \<Rightarrow> bool" where
  "is_upper c = (CHR ''A'' \<le> c \<and> c \<le> CHR ''Z'')"

definition is_lower :: "char \<Rightarrow> bool" where
  "is_lower c = (CHR ''a'' \<le> c \<and> c \<le> CHR ''z'')"

definition is_space :: "char \<Rightarrow> bool" where
  "is_space c = (let n = (of_char c :: nat) in (9 \<le> n \<and> n \<le> 13) \<or> (28 \<le> n \<and> n \<le> 32))"

definition to_lower :: "char \<Rightarrow> char" where
  "to_lower c =
     (if is_upper c then ''abcdefghijklmnopqrstuvwxyz'' ! (of_char c - 65) else c)"

definition lower :: "string \<Rightarrow> string" where
  "lower s = map to_lower s"

definition strip :: "string \<Rightarrow> string" where
  "strip s = rev (dropWhile is_space (rev (dropWhile is_space s)))"

section \<open>Dates (datetime, strptime, strftime)\<close>

text \<open>
  A naive \<open>datetime\<close>. Every value the program builds comes from \<open>strptime\<close> with
  a format that has no fractional seconds, or from adding whole days to such a value,
  so the microsecond field is always 0 and is left out.
\<close>

record datetime =
  year :: nat
  month :: nat
  day :: nat
  hour :: nat
  minute :: nat
  second :: nat

text \<open>Python compares naive datetimes as the tuples of their fields.\<close>

definition datetime_key :: "datetime \<Rightarrow> nat \<times> nat \<times> nat \<times> nat \<times> nat \<times> nat" where
  "datetime_key t = (year t, month t, day t, hour t, minute t, second t)"

definition datetime_le :: "datetime \<Rightarrow> datetime \<Rightarrow> bool" where
  "datetime_le a b = (datetime_key a \<le> datetime_key b)"

definition datetime_lt :: "datetime \<Rightarrow> datetime \<Rightarrow> bool" where
  "datetime_lt a b = (datetime_key a < datetime_key b)"

definition is_leap :: "nat \<Rightarrow> bool" where
  "is_leap y = (y mod 4 = 0 \<and> (y mod 100 \<noteq> 0 \<or> y mod 400 = 0))"

definition days_in_month :: "nat \<Rightarrow> nat \<Rightarrow> nat" where
  "days_in_month y m =
     (if m = 2 \<and> is_leap y then 29
      else [31, 28, 31, 30, 31, 30, 31, 31, 30, 31, 30, 31] ! (m - 1))"

text \<open>The checks of the \<open>datetime(...)\<close> constructor, which raises \<open>ValueError\<close> otherwise.\<close>

definition valid_datetime :: "datetime \<Rightarrow> bool" where
  "valid_datetime t =
     (1 \<le> year t \<and> year t \<le> 9999 \<and> 1 \<le> month t \<and> month t \<le> 12 \<and>
      1 \<le> day t \<and> day t \<le> days_in_month (year t) (month t) \<and>
      hour t < 24 \<and> minute t < 60 \<and> second t < 60)"

definition mk_date :: "nat \<Rightarrow> nat \<Rightarrow> nat \<Rightarrow> datetime" where
  "mk_date y m d = \<lparr>year = y, month = m, day = d, hour = 0, minute = 0, second = 0\<rparr>"

subsection \<open>strptime\<close>

text \<open>
  \<open>datetime.strptime\<close> turns the format into a regular expression, one alternation per
  directive, matches it case-insensitively at the start of the string, rejects the
  string when text is left over, and hands the fields to the \<open>datetime\<close> constructor.
  Each directive below lists the alternatives of its expression in their order:
  \<open>%m\<close> is \<open>1[0-2]|0[1-9]|[1-9]\<close>, \<open>%d\<close> is \<open>3[0-1]|[1-2]\d|0[1-9]|[1-9]| [1-9]\<close>,
  \<open>%H\<close> is \<open>2[0-3]|[0-1]\d|\d\<close>, \<open>%M\<close> is \<open>[0-5]\d|\d\<close>, \<open>%S\<close> is
  \<open>6[0-1]|[0-5]\d|\d\<close>, \<open>%Y\<close> is \<open>\d\d\d\d\<close>, \<open>%B\<close> and \<open>%b\<close> are the month names
  of the C locale. A run of whitespace in the format is \<open>\s+\<close>.

  The model commits to the first alternative that matches. In the formats of
  \<open>parse_date\<close> every numeric directive is followed by a character that is not a
  digit or by the end of the format, and no month name is a prefix of another, so
  the expression has no second way to match and the committed choice is the match
  the expression finds. Directives other than the eight used there are rejected.
\<close>

fun two_digits :: "(nat \<Rightarrow> nat \<Rightarrow> bool) \<Rightarrow> string \<Rightarrow> (nat \<times> string) option" where
  "two_digits ok (a # b # rest) =
     (if is_digit a \<and> is_digit b \<and> ok (digit_val a) (digit_val b)
      then Some (10 * digit_val a + digit_val b, rest) else None)"
| "two_digits ok _ = None"

fun one_digit :: "(nat \<Rightarrow> bool) \<Rightarrow> string \<Rightarrow> (nat \<times> string) option" where
  "one_digit ok (a # rest) =
     (if is_digit a \<and> ok (digit_val a) then Some (digit_val a, rest) else None)"
| "one_digit ok _ = None"

fun space_digit :: "string \<Rightarrow> (nat \<times> string) option" where
  "space_digit (a # b # rest) =
     (if a = CHR '' '' \<and> is_digit b \<and> 1 \<le> digit_val b then Some (digit_val b, rest) else None)"
| "space_digit _ = None"

fun first_alt :: "(string \<Rightarrow> (nat \<times> string) option) list \<Rightarrow> string \<Rightarrow> (nat \<times> string) option" where
  "first_alt [] s = None"
| "first_alt (p # ps) s = (case p s of Some r \<Rightarrow> Some r | None \<Rightarrow> first_alt ps s)"

fun re_Y :: "string \<Rightarrow> (nat \<times> string) option" where
  "re_Y (a # b # c # d # rest) =
     (if is_digit a \<and> is_digit b \<and> is_digit c \<and> is_digit d
      then Some (1000 * digit_val a + 100 * digit_val b + 10 * digit_val c + digit_val d, rest)
      else None)"
| "re_Y _ = None"

definition re_m :: "string \<Rightarrow> (nat \<times> string) option" where
  "re_m = first_alt
     [two_digits (\<lambda>a b. a = 1 \<and> b \<le> 2),
      two_digits (\<lambda>a b. a = 0 \<and> 1 \<le> b),
      one_digit (\<lambda>a. 1 \<le> a)]"

definition re_d :: "string \<Rightarrow> (nat \<times> string) option" where
  "re_d = first_alt
     [two_digits (\<lambda>a b. a = 3 \<and> b \<le> 1),
      two_digits (\<lambda>a b. 1 \<le> a \<and> a \<le> 2),
      two_digits (\<lambda>a b. a = 0 \<and> 1 \<le> b),
      one_digit (\<lambda>a. 1 \<le> a),
      space_digit]"

definition re_H :: "string \<Rightarrow> (nat \<times> string) option" where
  "re_H = first_alt
     [two_digits (\<lambda>a b. a = 2 \<and> b \<le> 3),
      two_digits (\<lambda>a b. a \<le> 1),
      one_digit (\<lambda>a. True)]"

definition re_M :: "string \<Rightarrow> (nat \<times> string) option" where
  "re_M = first_alt
     [two_digits (\<lambda>a b. a \<le> 5),
      one_digit (\<lambda>a. True)]"

definition re_S :: "string \<Rightarrow> (nat \<times> string) option" where
  "re_S = first_alt
     [two_digits (\<lambda>a b. a = 6 \<and> b \<le> 1),
      two_digits (\<lambda>a b. a \<le> 5),
      one_digit (\<lambda>a. True)]"

definition month_names :: "string list" where
  "month_names =
     [''january'', ''february'', ''march'', ''april'', ''may'', ''june'', ''july'',
      ''august'', ''september'', ''october'', ''november'', ''december'']"

definition month_abbrs :: "string list" where
  "month_abbrs =
     [''jan'', ''feb'', ''mar'', ''apr'', ''may'', ''jun'', ''jul'',
      ''aug'', ''sep'', ''oct'', ''nov'', ''dec'']"

fun match_name :: "string list \<Rightarrow> nat \<Rightarrow> string \<Rightarrow> (nat \<times> string) option" where
  "match_name [] i s = None"
| "match_name (n # ns) i s =
     (if lower (take (length n) s) = n then Some (i, drop (length n) s)
      else match_name ns (Suc i) s)"

definition directive :: "char \<Rightarrow> string \<Rightarrow> datetime \<Rightarrow> (datetime \<times> string) option" where
  "directive d s t =
     (if d = CHR ''Y'' then map_option (\<lambda>(n, r). (t\<lparr>year := n\<rparr>, r)) (re_Y s)
      else if d = CHR ''m'' then map_option (\<lambda>(n, r). (t\<lparr>month := n\<rparr>, r)) (re_m s)
      else if d = CHR ''d'' then map_option (\<lambda>(n, r). (t\<lparr>day := n\<rparr>, r)) (re_d s)
      else if d = CHR ''B'' then
        map_option (\<lambda>(n, r). (t\<lparr>month := n\<rparr>, r)) (match_name month_names 1 s)
      else if d = CHR ''b'' then
        map_option (\<lambda>(n, r). (t\<lparr>month := n\<rparr>, r)) (match_name month_abbrs 1 s)
      else if d = CHR ''H'' then map_option (\<lambda>(n, r). (t\<lparr>hour := n\<rparr>, r)) (re_H s)
      else if d = CHR ''M'' then map_option (\<lambda>(n, r). (t\<lparr>minute := n\<rparr>, r)) (re_M s)
      else if d = CHR ''S'' then map_option (\<lambda>(n, r). (t\<lparr>second := n\<rparr>, r)) (re_S s)
      else None)"

text \<open>
  \<open>strptime_match fmt s t\<close> walks the format: a directive, a run of whitespace
  (one or more whitespace characters of the string), or a literal character. At the
  end of the format the string must be used up ("unconverted data remains").
\<close>

function strptime_match :: "string \<Rightarrow> string \<Rightarrow> datetime \<Rightarrow> datetime option" where
  "strptime_match [] s t = (if s = [] then Some t else None)"
| "strptime_match (c # fmt) s t =
     (if c = CHR ''%'' then
        (case fmt of
           [] \<Rightarrow> None
         | d # fmt' \<Rightarrow>
             (case directive d s t of
                None \<Rightarrow> None
              | Some (t', s') \<Rightarrow> strptime_match fmt' s' t'))
      else if is_space c then
        (case s of
           [] \<Rightarrow> None
         | x # s' \<Rightarrow>
             if is_space x
             then strptime_match (dropWhile is_space fmt) (dropWhile is_space s') t
             else None)
      else
        (case s of
           [] \<Rightarrow> None
         | x # s' \<Rightarrow> if to_lower x = to_lower c then strptime_match fmt s' t else None))"
  by pat_completeness auto
termination
  by (relation "measure (\<lambda>(fmt, s, t). length fmt)")
     (auto simp: less_Suc_eq_le length_dropWhile_le)

definition strptime :: "string \<Rightarrow> string \<Rightarrow> datetime option" where
  "strptime s fmt =
     (case strptime_match fmt s
             \<lparr>year = 1900, month = 1, day = 1, hour = 0, minute = 0, second = 0\<rparr> of
        None \<Rightarrow> None
      | Some t \<Rightarrow> if valid_datetime t then Some t else None)"

subsection \<open>strftime\<close>

definition digit_char :: "nat \<Rightarrow> char" where
  "digit_char n = ''0123456789'' ! (n mod 10)"

definition pad2 :: "nat \<Rightarrow> string" where
  "pad2 n = [digit_char (n div 10), digit_char n]"

definition pad4 :: "nat \<Rightarrow> string" where
  "pad4 n = [digit_char (n div 1000), digit_char (n div 100), digit_char (n div 10), digit_char n]"

text \<open>A number in decimal without padding, as \<open>str(n)\<close> and the C format \<open>%d\<close> write it.\<close>

fun str_nat_aux :: "nat \<Rightarrow> nat \<Rightarrow> string" where
  "str_nat_aux 0 n = []"
| "str_nat_aux (Suc k) n =
     (if n < 10 then [digit_char n] else str_nat_aux k (n div 10) @ [digit_char n])"

definition str_nat :: "nat \<Rightarrow> string" where
  "str_nat n = str_nat_aux (Suc n) n"

definition Month_names :: "string list" where
  "Month_names =
     [''January'', ''February'', ''March'', ''April'', ''May'', ''June'', ''July'',
      ''August'', ''September'', ''October'', ''November'', ''December'']"

definition Month_abbrs :: "string list" where
  "Month_abbrs =
     [''Jan'', ''Feb'', ''Mar'', ''Apr'', ''May'', ''Jun'', ''Jul'',
      ''Aug'', ''Sep'', ''Oct'', ''Nov'', ''Dec'']"

text \<open>
  \<open>t.strftime(fmt)\<close> hands the format to the C library. With glibc \<open>%Y\<close> is the year
  in decimal with no padding, so a year below 1000 comes out with fewer than four
  digits; months, days, hours, minutes and seconds are padded to two digits, and
  the month names are the English ones.
\<close>

definition strftime_directive :: "char \<Rightarrow> datetime \<Rightarrow> string" where
  "strftime_directive d t =
     (if d = CHR ''Y'' then str_nat (year t)
      else if d = CHR ''m'' then pad2 (month t)
      else if d = CHR ''d'' then pad2 (day t)
      else if d = CHR ''B'' then Month_names ! (month t - 1)
      else if d = CHR ''b'' then Month_abbrs ! (month t - 1)
      else if d = CHR ''H'' then pad2 (hour t)
      else if d = CHR ''M'' then pad2 (minute t)
      else if d = CHR ''S'' then pad2 (second t)
      else [CHR ''%'', d])"

fun strftime :: "datetime \<Rightarrow> string \<Rightarrow> string" where
  "strftime t [] = []"
| "strftime t [c] = [c]"
| "strftime t (c # d # fmt) =
     (if c = CHR ''%'' then strftime_directive d t @ strftime t fmt
      else c # strftime t (d # fmt))"

section \<open>utils/date\_utils.py\<close>

definition default_formats :: "string list" where
  "default_formats =
     [''%Y-%m-%d'',
      ''%B %d, %Y'',
      ''%b %d, %Y'',
      ''%d %B %Y'',
      ''%d %b %Y'',
      ''%m/%d/%Y'',
      ''%d/%m/%Y'',
      ''%Y-%m-%d %H:%M:%S'']"

text \<open>The \<open>for fmt in formats: try ... except ValueError: continue\<close> loop.\<close>

fun try_formats :: "string \<Rightarrow> string list \<Rightarrow> datetime option" where
  "try_formats date_str [] = None"
| "try_formats date_str (fmt # formats) =
     (case strptime (strip date_str) fmt of
        Some t \<Rightarrow> Some t
      | None \<Rightarrow> try_formats date_str formats)"

definition parse_date_with :: "string \<Rightarrow> string list option \<Rightarrow> datetime option" where
  "parse_date_with date_str formats =
     try_formats date_str (case formats of None \<Rightarrow> default_formats | Some fs \<Rightarrow> fs)"

text \<open>Every call in the program leaves \<open>formats\<close> at its default.\<close>

definition parse_date :: "string \<Rightarrow> datetime option" where
  "parse_date date_str = parse_date_with date_str None"

definition is_date_in_range :: "datetime \<Rightarrow> datetime \<Rightarrow> datetime \<Rightarrow> bool" where
  "is_date_in_range review_date start_date end_date =
     (datetime_le start_date review_date \<and> datetime_le review_date end_date)"

definition should_stop_scraping :: "datetime option \<Rightarrow> datetime \<Rightarrow> bool" where
  "should_stop_scraping review_date start_date =
     (case review_date of
        None \<Rightarrow> False
      | Some d \<Rightarrow> datetime_lt d start_date)"

section \<open>Parsed documents (BeautifulSoup)\<close>

text \<open>
  A parsed document is a tree of tags and strings. Only what the scrapers use is
  modelled: searching the descendants of a tag in document order by tag name and
  attribute test (\<open>find_all\<close>, \<open>find\<close>), reading an attribute (\<open>get\<close>), the text of
  a subtree (\<open>get_text\<close>), and the markup of a subtree (\<open>str\<close>), which is written
  here without entity escaping.

  Every string of the tree is an object of \<open>NavigableString\<close> or of one of its
  subclasses. The parser gives the class: a comment is a \<open>Comment\<close>, and a string
  read while a \<open>script\<close>, \<open>style\<close>, \<open>template\<close>, \<open>rt\<close> or \<open>rp\<close> tag is the innermost
  open one of these is a \<open>Script\<close>, \<open>Stylesheet\<close>, \<open>TemplateString\<close>, \<open>RubyTextString\<close>
  or \<open>RubyParenthesisString\<close>.
\<close>

datatype string_class =
  NavigableString | CData | Comment | Declaration | Doctype | ProcessingInstruction
  | Script | Stylesheet | TemplateString | RubyTextString | RubyParenthesisString

datatype node = Text string_class string | Tag string "(string \<times> string) list" "node list"

fun descendants :: "node \<Rightarrow> node list" where
  "descendants (Text k s) = []"
| "descendants (Tag n as cs) = concat (map (\<lambda>c. c # descendants c) cs)"

fun tag_name :: "node \<Rightarrow> string option" where
  "tag_name (Text k s) = None"
| "tag_name (Tag n as cs) = Some n"

text \<open>The tags directly below a tag.\<close>

fun child_elements :: "node \<Rightarrow> node list" where
  "child_elements (Text k s) = []"
| "child_elements (Tag n as cs) = filter (\<lambda>c. tag_name c \<noteq> None) cs"

fun get_attr :: "node \<Rightarrow> string \<Rightarrow> string option" where
  "get_attr (Text c s) k = None"
| "get_attr (Tag n as cs) k = map_of as k"

text \<open>
  \<open>string_containers\<close> of the HTML tree builders: the class of the strings a tag of
  that name holds. \<open>get_text\<close> of a tag of such a name reads the strings of that class
  only; \<open>get_text\<close> of any other tag reads the strings whose class is exactly
  \<open>NavigableString\<close> or \<open>CData\<close>, so it passes over comments and over what stands in
  \<open>script\<close>, \<open>style\<close> and \<open>template\<close> tags below it. The scrapers ask tags only for
  their text; a string is treated here like a tag of the second kind.
\<close>

definition string_containers :: "string \<Rightarrow> string_class option" where
  "string_containers n =
     map_of [(''rt'', RubyTextString), (''rp'', RubyParenthesisString),
             (''style'', Stylesheet), (''script'', Script), (''template'', TemplateString)] n"

definition interesting_string_types :: "node \<Rightarrow> string_class list" where
  "interesting_string_types e =
     (case tag_name e of
        None \<Rightarrow> [NavigableString, CData]
      | Some n \<Rightarrow> (case string_containers n of
                     None \<Rightarrow> [NavigableString, CData]
                   | Some k \<Rightarrow> [k]))"

text \<open>The strings of a subtree in document order, each with its class.\<close>

fun all_strings :: "node \<Rightarrow> (string_class \<times> string) list" where
  "all_strings (Text k s) = [(k, s)]"
| "all_strings (Tag n as cs) = concat (map all_strings cs)"

definition texts :: "node \<Rightarrow> string list" where
  "texts e =
     map snd (filter (\<lambda>(k, s). k \<in> set (interesting_string_types e)) (all_strings e))"

definition get_text :: "node \<Rightarrow> string" where
  "get_text e = concat (texts e)"

text \<open>\<open>get_text(strip=True)\<close>: every piece of text stripped, empty pieces dropped.\<close>

definition get_text_strip :: "node \<Rightarrow> string" where
  "get_text_strip e = concat (filter (\<lambda>s. s \<noteq> []) (map strip (texts e)))"

definition find_all :: "string list \<Rightarrow> (node \<Rightarrow> bool) \<Rightarrow> nat option \<Rightarrow> node \<Rightarrow> node list" where
  "find_all names test limit e =
     (let found = filter (\<lambda>x. (case tag_name x of None \<Rightarrow> False | Some n \<Rightarrow> n \<in> set names) \<and> test x)
                         (descendants e)
      in case limit of None \<Rightarrow> found | Some k \<Rightarrow> take k found)"

definition find :: "string list \<Rightarrow> (node \<Rightarrow> bool) \<Rightarrow> node \<Rightarrow> node option" where
  "find names test e = (case find_all names test (Some 1) e of [] \<Rightarrow> None | x # _ \<Rightarrow> Some x)"

text \<open>What a string of each class is written between in the markup.\<close>

fun output_affixes :: "string_class \<Rightarrow> string \<times> string" where
  "output_affixes CData = (''<![CDATA['', '']]>'')"
| "output_affixes Comment = (''<!--'', ''-->'')"
| "output_affixes Declaration = (''<?'', ''?>'')"
| "output_affixes Doctype = (''<!DOCTYPE '', [CHR ''>'', CHR 0x0A])"
| "output_affixes ProcessingInstruction = (''<?'', ''>'')"
| "output_affixes _ = ([], [])"

fun to_html :: "node \<Rightarrow> string" where
  "to_html (Text k s) = fst (output_affixes k) @ s @ snd (output_affixes k)"
| "to_html (Tag n as cs) =
     ''<'' @ n @ concat (map (\<lambda>(k, v). '' '' @ k @ ''=\"'' @ v @ ''\"'') as) @ ''>''
     @ concat (map to_html cs) @ ''</'' @ n @ ''>''"

text \<open>\<open>kw in s\<close> on strings.\<close>

fun contains :: "string \<Rightarrow> string \<Rightarrow> bool" where
  "contains kw [] = (kw = [])"
| "contains kw (c # s) = (take (length kw) (c # s) = kw \<or> contains kw s)"

fun split_ws :: "string \<Rightarrow> string list" where
  "split_ws [] = []"
| "split_ws (c # s) =
     (if is_space c then split_ws s
      else (case split_ws s of
              [] \<Rightarrow> [[c]]
            | w # ws \<Rightarrow> (case s of
                           [] \<Rightarrow> [[c]]
                         | x # _ \<Rightarrow> if is_space x then [c] # w # ws else (c # w) # ws)))"

fun join :: "string \<Rightarrow> string list \<Rightarrow> string" where
  "join sep [] = []"
| "join sep [x] = x"
| "join sep (x # y # xs) = x @ sep @ join sep (y # xs)"

text \<open>
  A test given for the \<open>class\<close> attribute is applied to each class of the tag and
  then to all of them joined by spaces; a tag without the attribute fails it. The
  tests of the scrapers are \<open>x and kw in str(x).lower()\<close> for one or several keywords.
\<close>

definition class_has :: "string list \<Rightarrow> node \<Rightarrow> bool" where
  "class_has kws e =
     (case get_attr e ''class'' of
        None \<Rightarrow> False
      | Some v \<Rightarrow>
          (let cs = split_ws v; test = (\<lambda>x. x \<noteq> [] \<and> list_ex (\<lambda>kw. contains kw (lower x)) kws)
           in list_ex test cs \<or> test (join '' '' cs)))"

definition any_tag :: "node \<Rightarrow> bool" where
  "any_tag e = True"

section \<open>BaseScraper.fallback\_extract\_reviews\<close>

definition has_review_keywords :: "node \<Rightarrow> bool" where
  "has_review_keywords candidate =
     list_ex (\<lambda>kw. contains kw (lower (get_text candidate)))
       [''review'', ''rating'', ''star'', ''reviewed'', ''feedback'']"

definition has_substantial_text :: "node \<Rightarrow> bool" where
  "has_substantial_text candidate = (length (get_text_strip candidate) > 100)"

definition has_multiple_elements :: "node \<Rightarrow> bool" where
  "has_multiple_elements candidate =
     (length (find_all [''p'', ''div'', ''span''] any_tag (Some 5) candidate) \<ge> 2)"

fun fallback_loop :: "node list \<Rightarrow> node list \<Rightarrow> node list" where
  "fallback_loop [] reviews = reviews"
| "fallback_loop (candidate # candidates) reviews =
     (if has_review_keywords candidate \<and> has_substantial_text candidate
         \<and> has_multiple_elements candidate
      then (let reviews' = reviews @ [candidate]
            in if length reviews' \<ge> 20 then reviews' else fallback_loop candidates reviews')
      else fallback_loop candidates reviews)"

definition fallback_extract_reviews :: "node \<Rightarrow> node list" where
  "fallback_extract_reviews soup =
     fallback_loop (find_all [''div'', ''article'', ''li'', ''section''] any_tag (Some 100) soup) []"

section \<open>Review records and the regular expressions of the scrapers\<close>

record review =
  title :: string
  review_text :: string
  review_date :: string
  reviewer :: string
  rating :: string
  source :: string

definition empty_review :: "string \<Rightarrow> review" where
  "empty_review src =
     \<lparr>title = [], review_text = [], review_date = [], reviewer = [], rating = [], source = src\<rparr>"

text \<open>
  Each expression is written as a matcher that returns the matched text at the
  start of the string; \<open>re_search\<close> tries every position from the left. The
  expressions only repeat character classes followed by a character outside the
  class, so taking the longest run is what the expression does.
\<close>

fun re_search :: "(string \<Rightarrow> string option) \<Rightarrow> string \<Rightarrow> string option" where
  "re_search p [] = p []"
| "re_search p (c # s) = (case p (c # s) of Some m \<Rightarrow> Some m | None \<Rightarrow> re_search p s)"

definition digits_of :: "string \<Rightarrow> string" where
  "digits_of s = takeWhile is_digit s"

text \<open>\<open>^\d+[/-]\d+\<close>\<close>

definition looks_like_date :: "string \<Rightarrow> bool" where
  "looks_like_date s =
     (let ds = digits_of s
      in ds \<noteq> [] \<and>
         (case drop (length ds) s of
            c # d # _ \<Rightarrow> (c = CHR ''/'' \<or> c = CHR ''-'') \<and> is_digit d
          | _ \<Rightarrow> False))"

text \<open>\<open>^\d+\.?\d*\s*(star|out of)\<close>\<close>

definition looks_like_rating :: "string \<Rightarrow> bool" where
  "looks_like_rating s =
     (let ds = digits_of s;
          r1 = drop (length ds) s;
          r2 = (case r1 of c # r \<Rightarrow> if c = CHR ''.'' then r else r1 | [] \<Rightarrow> r1);
          r3 = dropWhile is_space (dropWhile is_digit r2)
      in ds \<noteq> [] \<and> (take 4 r3 = ''star'' \<or> take 6 r3 = ''out of''))"

text \<open>\<open>(\d{4}-\d{2}-\d{2})\<close>\<close>

definition m_iso_date :: "string \<Rightarrow> string option" where
  "m_iso_date s =
     (case s of
        a # b # c # d # e # f # g # h # i # j # _ \<Rightarrow>
          if list_all is_digit [a, b, c, d, f, g, i, j] \<and> e = CHR ''-'' \<and> h = CHR ''-''
          then Some (take 10 s) else None
      | _ \<Rightarrow> None)"

text \<open>One or two digits and then one of the given characters: \<open>\d{1,2}[...]\<close>.\<close>

definition digits12 :: "string \<Rightarrow> string \<Rightarrow> (string \<times> string) option" where
  "digits12 seps s =
     (let ds = digits_of s
      in if length ds = 1 \<or> length ds = 2
         then (case drop (length ds) s of
                 c # r \<Rightarrow> if c \<in> set seps then Some (ds @ [c], r) else None
               | [] \<Rightarrow> None)
         else None)"

text \<open>\<open>(\d{1,2}[/-]\d{1,2}[/-]\d{2,4})\<close>\<close>

definition m_slash_date :: "string \<Rightarrow> string option" where
  "m_slash_date s =
     (case digits12 ''/-'' s of
        None \<Rightarrow> None
      | Some (a, r1) \<Rightarrow>
          (case digits12 ''/-'' r1 of
             None \<Rightarrow> None
           | Some (b, r2) \<Rightarrow>
               (let ds = take 4 (digits_of r2)
                in if length ds \<ge> 2 then Some (a @ b @ ds) else None)))"

text \<open>\<open>([A-Z][a-z]+ \d{1,2}, \d{4})\<close>\<close>

definition m_month_date :: "string \<Rightarrow> string option" where
  "m_month_date s =
     (case s of
        [] \<Rightarrow> None
      | u # r \<Rightarrow>
          (let ls = takeWhile is_lower r
           in if is_upper u \<and> ls \<noteq> []
              then (case drop (length ls) r of
                      sp # r1 \<Rightarrow>
                        if sp = CHR '' '' then
                          (case digits12 '','' r1 of
                             None \<Rightarrow> None
                           | Some (dd, r2) \<Rightarrow>
                               (case r2 of
                                  sp2 # a # b # c # d # _ \<Rightarrow>
                                    if sp2 = CHR '' '' \<and> list_all is_digit [a, b, c, d]
                                    then Some (u # ls @ '' '' @ dd @ [sp2, a, b, c, d])
                                    else None
                                | _ \<Rightarrow> None))
                        else None
                    | [] \<Rightarrow> None)
              else None))"

text \<open>\<open>(\d+\.?\d*)\<close>\<close>

definition m_number :: "string \<Rightarrow> string option" where
  "m_number s =
     (let ds = digits_of s; r = drop (length ds) s
      in if ds = [] then None
         else (case r of
                 c # r' \<Rightarrow> if c = CHR ''.'' then Some (ds @ [c] @ digits_of r') else Some ds
               | [] \<Rightarrow> Some ds))"

fun first_some :: "('a \<Rightarrow> 'b option) list \<Rightarrow> 'a \<Rightarrow> 'b option" where
  "first_some [] x = None"
| "first_some (f # fs) x = (case f x of Some y \<Rightarrow> Some y | None \<Rightarrow> first_some fs x)"

text \<open>\<open>text.split('\n')\<close>\<close>

fun split_lines :: "string \<Rightarrow> string list" where
  "split_lines [] = [[]]"
| "split_lines (c # s) =
     (if c = CHR 0x0A then [] # split_lines s
      else (case split_lines s of l # ls \<Rightarrow> (c # l) # ls | [] \<Rightarrow> [[c]]))"

section \<open>The adapters' parse\_review\<close>

text \<open>
  \<open>parse_review\<close> wraps its body in \<open>try ... except Exception\<close> and returns
  \<open>None\<close> on any exception. The operations modelled below raise none, so the only
  way to \<open>None\<close> in the model is the last test of the body.
\<close>

text \<open>The first selector that finds an element gives its stripped text.\<close>

fun first_found :: "(string list \<times> (node \<Rightarrow> bool)) list \<Rightarrow> node \<Rightarrow> node option" where
  "first_found [] e = None"
| "first_found ((names, test) # sels) e =
     (case find names test e of Some x \<Rightarrow> Some x | None \<Rightarrow> first_found sels e)"

definition text_of_first :: "(string list \<times> (node \<Rightarrow> bool)) list \<Rightarrow> node \<Rightarrow> string" where
  "text_of_first sels e = (case first_found sels e of None \<Rightarrow> [] | Some x \<Rightarrow> get_text_strip x)"

text \<open>The date: a \<open>time\<close> element, else an element with a date class, else a pattern in the text.\<close>

definition time_date :: "node \<Rightarrow> string" where
  "time_date date_elem =
     (case get_attr date_elem ''datetime'' of
        Some v \<Rightarrow> if v \<noteq> [] then v else get_text_strip date_elem
      | None \<Rightarrow> get_text_strip date_elem)"

definition date_patterns :: "(string \<Rightarrow> string option) list" where
  "date_patterns = [re_search m_iso_date, re_search m_slash_date, re_search m_month_date]"

definition extract_date :: "node \<Rightarrow> string" where
  "extract_date review_element =
     (case find [''time''] any_tag review_element of
        Some date_elem \<Rightarrow> time_date date_elem
      | None \<Rightarrow>
          (case find [''span'', ''div''] (class_has [''date'']) review_element of
             Some date_elem \<Rightarrow> get_text_strip date_elem
           | None \<Rightarrow>
               (case first_some date_patterns (get_text review_element) of
                  Some m \<Rightarrow> m
                | None \<Rightarrow> [])))"

definition is_filled :: "string list \<Rightarrow> node \<Rightarrow> bool" where
  "is_filled kws s = list_ex (\<lambda>kw. contains kw (lower (to_html s))) kws"

text \<open>The rating of G2 and Capterra: a number in the rating element, else its filled stars.\<close>

definition extract_rating :: "node \<Rightarrow> string" where
  "extract_rating review_element =
     (case find [''div'', ''span''] (class_has [''rating'']) review_element of
        None \<Rightarrow> []
      | Some rating_elem \<Rightarrow>
          (case re_search m_number (get_text_strip rating_elem) of
             Some m \<Rightarrow> m
           | None \<Rightarrow>
               (let stars = find_all [''svg'', ''i'', ''span''] (class_has [''star'']) None rating_elem
                in if stars \<noteq> []
                   then str_nat (length (filter (is_filled [''filled'', ''full'', ''active'']) stars))
                   else [])))"

definition reviewer_selectors :: "(string list \<times> (node \<Rightarrow> bool)) list" where
  "reviewer_selectors =
     [([''a''], class_has [''user'', ''author'', ''reviewer'']),
      ([''span''], class_has [''user'', ''author'', ''reviewer'']),
      ([''div''], class_has [''user'', ''author''])]"

subsection \<open>G2\<close>

definition g2_title_selectors :: "(string list \<times> (node \<Rightarrow> bool)) list" where
  "g2_title_selectors =
     [([''h2''], any_tag), ([''h3''], any_tag), ([''h4''], any_tag), ([''h5''], any_tag),
      ([''div''], class_has [''title'']), ([''span''], class_has [''title''])]"

definition g2_text_selectors :: "(string list \<times> (node \<Rightarrow> bool)) list" where
  "g2_text_selectors =
     [([''p''], class_has [''review'', ''text'', ''content'', ''body'', ''description'']),
      ([''div''], class_has [''review'', ''text'', ''content'', ''body'', ''description'']),
      ([''span''], class_has [''review'', ''text'', ''content'', ''description'']),
      ([''p''], any_tag),
      ([''div''], any_tag)]"

definition g2_longer :: "string \<Rightarrow> node \<Rightarrow> string" where
  "g2_longer longest_text text_elem =
     (let text = get_text_strip text_elem
      in if length text > length longest_text \<and> length text > 30
            \<and> \<not> looks_like_date text \<and> \<not> looks_like_rating (lower text)
         then text else longest_text)"

definition g2_longest_text :: "node \<Rightarrow> string" where
  "g2_longest_text review_element =
     foldl (\<lambda>longest_text (names, test).
              foldl g2_longer longest_text (find_all names test None review_element))
           [] g2_text_selectors"

definition g2_fallback_text :: "node \<Rightarrow> string" where
  "g2_fallback_text review_element =
     (let all_text = get_text_strip review_element;
          lines = filter (\<lambda>l. length l > 30) (map strip (split_lines all_text))
      in if lines \<noteq> [] then join '' '' (take 3 lines) else [])"

definition g2_parse_review :: "node \<Rightarrow> review option" where
  "g2_parse_review review_element =
     (let longest_text = g2_longest_text review_element;
          review = (empty_review ''g2'')
            \<lparr>title := text_of_first g2_title_selectors review_element,
             review_text := (if longest_text \<noteq> [] then longest_text
                             else g2_fallback_text review_element),
             review_date := extract_date review_element,
             reviewer := text_of_first reviewer_selectors review_element,
             rating := extract_rating review_element\<rparr>
      in if review_text review \<noteq> [] \<or> title review \<noteq> [] then Some review else None)"

subsection \<open>Capterra\<close>

definition capterra_title_selectors :: "(string list \<times> (node \<Rightarrow> bool)) list" where
  "capterra_title_selectors =
     [([''h2''], any_tag), ([''h3''], any_tag), ([''h4''], any_tag),
      ([''div''], class_has [''title'']), ([''span''], class_has [''title''])]"

definition capterra_text_selectors :: "(string list \<times> (node \<Rightarrow> bool)) list" where
  "capterra_text_selectors =
     [([''p''], class_has [''review'', ''text'', ''content'', ''body'']),
      ([''div''], class_has [''review'', ''text'', ''content'', ''body'']),
      ([''span''], class_has [''review'', ''text'', ''content'']),
      ([''p''], any_tag)]"

fun capterra_text :: "(string list \<times> (node \<Rightarrow> bool)) list \<Rightarrow> node \<Rightarrow> string" where
  "capterra_text [] e = []"
| "capterra_text ((names, test) # sels) e =
     (case find names test e of
        None \<Rightarrow> capterra_text sels e
      | Some text_elem \<Rightarrow>
          (let text = get_text_strip text_elem
           in if length text > 20 then text else capterra_text sels e))"

definition capterra_parse_review :: "node \<Rightarrow> review option" where
  "capterra_parse_review review_element =
     (let review = (empty_review ''capterra'')
            \<lparr>title := text_of_first capterra_title_selectors review_element,
             review_text := capterra_text capterra_text_selectors review_element,
             review_date := extract_date review_element,
             reviewer := text_of_first reviewer_selectors review_element,
             rating := extract_rating review_element\<rparr>
      in if review_text review \<noteq> [] \<or> title review \<noteq> [] then Some review else None)"

subsection \<open>Trustpilot\<close>

definition trustpilot_date :: "node \<Rightarrow> string" where
  "trustpilot_date review_element =
     (case find [''time''] any_tag review_element of
        Some date_elem \<Rightarrow> time_date date_elem
      | None \<Rightarrow>
          (case find [''span''] (class_has [''date'']) review_element of
             Some date_span \<Rightarrow> get_text_strip date_span
           | None \<Rightarrow> []))"

definition trustpilot_rating :: "node \<Rightarrow> string" where
  "trustpilot_rating review_element =
     (case first_found [([''div''], class_has [''rating'']), ([''span''], class_has [''rating''])]
             review_element of
        None \<Rightarrow> []
      | Some rating_elem \<Rightarrow>
          (case re_search m_number (get_text_strip rating_elem) of
             Some m \<Rightarrow> m
           | None \<Rightarrow>
               (let svgs = find_all [''svg''] any_tag None rating_elem;
                    stars = (if svgs \<noteq> [] then svgs
                             else find_all [''i''] (class_has [''star'']) None rating_elem)
                in if stars \<noteq> []
                   then str_nat (length (filter (is_filled [''filled'', ''full'']) stars))
                   else [])))"

definition trustpilot_parse_review :: "node \<Rightarrow> review option" where
  "trustpilot_parse_review review_element =
     (let review = (empty_review ''trustpilot'')
            \<lparr>title := text_of_first [([''h2''], any_tag), ([''h3''], any_tag)] review_element,
             review_text := text_of_first
                [([''p''], class_has [''review'', ''text'', ''content'']),
                 ([''div''], class_has [''review'', ''text'', ''content''])] review_element,
             review_date := trustpilot_date review_element,
             reviewer := text_of_first
                [([''a''], class_has [''user'']),
                 ([''span''], class_has [''user'', ''author'', ''name''])] review_element,
             rating := trustpilot_rating review_element\<rparr>
      in if review_text review \<noteq> [] \<or> title review \<noteq> [] then Some review else None)"

section \<open>BaseScraper.scrape\<close>

text \<open>
  The four abstract methods and \<open>get_source_name\<close> are the fields of an adapter.
  Element discovery and pagination are never looked into below, so they stay
  arbitrary functions of the document.
\<close>

record adapter =
  get_source_name :: string
  get_company_url :: "string \<Rightarrow> string"
  get_review_elements :: "node \<Rightarrow> node list"
  parse_review :: "node \<Rightarrow> review option"
  get_next_page_url :: "node \<Rightarrow> string \<Rightarrow> string option"

text \<open>
  What lies outside the program: \<open>get_soup\<close> gives the document fetched for a URL
  on the given pass of the loop (\<open>None\<close> when the fetch fails), and
  \<open>json_candidates\<close> gives the dictionaries that the scan of the script tags hands to
  \<open>parse_json_review\<close>, as raw text, in the order of the scan.
\<close>

type_synonym json = string

record env =
  get_soup :: "nat \<Rightarrow> string \<Rightarrow> node option"
  json_candidates :: "node \<Rightarrow> json list"

text \<open>No adapter overrides \<open>parse_json_review\<close>, which returns \<open>None\<close>.\<close>

definition parse_json_review :: "json \<Rightarrow> review option" where
  "parse_json_review json_data = None"

definition extract_reviews_from_json :: "env \<Rightarrow> node \<Rightarrow> review list" where
  "extract_reviews_from_json E soup = List.map_filter parse_json_review (json_candidates E soup)"

text \<open>
  The pass over the reviews found in embedded JSON. The flag says that the pass hit
  \<open>return self.reviews\<close>.
\<close>

fun json_pass :: "datetime \<Rightarrow> datetime \<Rightarrow> review list \<Rightarrow> review list \<Rightarrow> review list \<times> bool" where
  "json_pass start_date end_date [] reviews = (reviews, False)"
| "json_pass start_date end_date (json_review # rest) reviews =
     (case parse_date (review_date json_review) of
        Some d \<Rightarrow>
          if is_date_in_range d start_date end_date
          then json_pass start_date end_date rest (reviews @ [json_review])
          else if should_stop_scraping (Some d) start_date then (reviews, True)
          else json_pass start_date end_date rest reviews
      | None \<Rightarrow>
          if should_stop_scraping None start_date then (reviews, True)
          else json_pass start_date end_date rest reviews)"

text \<open>The \<open>for element in review_elements\<close> loop. The flag is \<open>page_stopped_early\<close>.\<close>

fun element_loop ::
  "adapter \<Rightarrow> datetime \<Rightarrow> datetime \<Rightarrow> node list \<Rightarrow> review list \<Rightarrow> review list \<times> bool" where
  "element_loop A start_date end_date [] reviews = (reviews, False)"
| "element_loop A start_date end_date (element # rest) reviews =
     (case parse_review A element of
        None \<Rightarrow> element_loop A start_date end_date rest reviews
      | Some r \<Rightarrow>
          (let d = parse_date (review_date r)
           in if should_stop_scraping d start_date then (reviews, True)
              else (case d of
                      Some t \<Rightarrow>
                        if is_date_in_range t start_date end_date
                        then element_loop A start_date end_date rest (reviews @ [r])
                        else element_loop A start_date end_date rest reviews
                    | None \<Rightarrow> element_loop A start_date end_date rest reviews)))"

text \<open>The elements of a page: the adapter's, or the fallback's when there are none.\<close>

definition page_elements :: "adapter \<Rightarrow> env \<Rightarrow> node \<Rightarrow> node list" where
  "page_elements A E soup =
     (let review_elements = get_review_elements A soup
      in if review_elements = [] \<and> extract_reviews_from_json E soup = []
         then fallback_extract_reviews soup else review_elements)"

datatype page_result = Return "review list" | Break "review list" | Continue "review list"

text \<open>One pass of the \<open>while\<close> body on a fetched document, up to the choice of the next URL.\<close>

definition scrape_page ::
  "adapter \<Rightarrow> env \<Rightarrow> datetime \<Rightarrow> datetime \<Rightarrow> node \<Rightarrow> review list \<Rightarrow> page_result" where
  "scrape_page A E start_date end_date soup reviews =
     (let json_reviews = extract_reviews_from_json E soup
      in case json_pass start_date end_date json_reviews reviews of
           (reviews1, returned) \<Rightarrow>
             if returned then Return reviews1
             else
               (let review_elements = page_elements A E soup
                in if review_elements = [] \<and> json_reviews = [] then Break reviews1
                   else (case element_loop A start_date end_date review_elements reviews1 of
                           (reviews2, page_stopped_early) \<Rightarrow>
                             if page_stopped_early then Break reviews2 else Continue reviews2)))"

text \<open>
  The run of the loop: the reviews at its end, whether it ended in \<open>return\<close>, and a
  log of the pages it fetched with the reviews held before and after each.
\<close>

record page_log =
  pl_page :: nat
  pl_url :: string
  pl_soup :: "node option"
  pl_before :: "review list"
  pl_after :: "review list"

record run =
  final_reviews :: "review list"
  returned_early :: bool
  pages :: "page_log list"

definition log_page :: "nat \<Rightarrow> string \<Rightarrow> node option \<Rightarrow> review list \<Rightarrow> review list \<Rightarrow> page_log" where
  "log_page n u s b a = \<lparr>pl_page = n, pl_url = u, pl_soup = s, pl_before = b, pl_after = a\<rparr>"

definition stop_run :: "review list \<Rightarrow> bool \<Rightarrow> page_log \<Rightarrow> run" where
  "stop_run reviews ret l = \<lparr>final_reviews = reviews, returned_early = ret, pages = [l]\<rparr>"

function scrape_loop ::
  "adapter \<Rightarrow> env \<Rightarrow> datetime \<Rightarrow> datetime \<Rightarrow> string option \<Rightarrow> nat \<Rightarrow> review list \<Rightarrow> run" where
  "scrape_loop A E start_date end_date url page_num reviews =
     (case url of
        None \<Rightarrow> \<lparr>final_reviews = reviews, returned_early = False, pages = []\<rparr>
      | Some u \<Rightarrow>
          if u = [] then \<lparr>final_reviews = reviews, returned_early = False, pages = []\<rparr>
          else
            (case get_soup E page_num u of
               None \<Rightarrow> stop_run reviews False (log_page page_num u None reviews reviews)
             | Some soup \<Rightarrow>
                 (case scrape_page A E start_date end_date soup reviews of
                    Return r \<Rightarrow> stop_run r True (log_page page_num u (Some soup) reviews r)
                  | Break r \<Rightarrow> stop_run r False (log_page page_num u (Some soup) reviews r)
                  | Continue r \<Rightarrow>
                      if page_num + 1 > 100
                      then stop_run r False (log_page page_num u (Some soup) reviews r)
                      else
                        (let rest = scrape_loop A E start_date end_date
                                      (get_next_page_url A soup u) (page_num + 1) r
                         in rest\<lparr>pages := log_page page_num u (Some soup) reviews r # pages rest\<rparr>))))"
  by pat_completeness auto
termination
  by (relation "measure (\<lambda>(A, E, s, e, url, page_num, reviews). 101 - page_num)") auto

section \<open>Date arithmetic (timedelta)\<close>

text \<open>The proleptic Gregorian ordinal of a date, day 1 being the first of January of year 1.\<close>

definition days_before_year :: "nat \<Rightarrow> nat" where
  "days_before_year y = (y - 1) * 365 + (y - 1) div 4 - (y - 1) div 100 + (y - 1) div 400"

definition days_before_month :: "nat \<Rightarrow> nat \<Rightarrow> nat" where
  "days_before_month y m =
     [0, 0, 31, 59, 90, 120, 151, 181, 212, 243, 273, 304, 334] ! m
     + (if m > 2 \<and> is_leap y then 1 else 0)"

definition to_ordinal :: "datetime \<Rightarrow> nat" where
  "to_ordinal t = days_before_year (year t) + days_before_month (year t) (month t) + day t"

text \<open>The inverse, written as the standard library computes it.\<close>

definition ord2ymd :: "nat \<Rightarrow> nat \<times> nat \<times> nat" where
  "ord2ymd ordinal =
     (let n = ordinal - 1;
          n400 = n div 146097; n = n mod 146097;
          n100 = n div 36524; n = n mod 36524;
          n4 = n div 1461; n = n mod 1461;
          n1 = n div 365; n = n mod 365;
          y = n400 * 400 + 1 + n100 * 100 + n4 * 4 + n1
      in if n1 = 4 \<or> n100 = 4 then (y - 1, 12, 31)
         else
           (let leapyear = (n1 = 3 \<and> (n4 \<noteq> 24 \<or> n100 = 3));
                y' = (if leapyear then 4 else 1);
                m = (n + 50) div 32;
                preceding = days_before_month y' m
            in if preceding > n
               then (y, m - 1, n - (preceding - days_in_month y' (m - 1)) + 1)
               else (y, m, n - preceding + 1)))"

definition seconds_of :: "datetime \<Rightarrow> int" where
  "seconds_of t =
     int (to_ordinal t) * 86400 + int (hour t) * 3600 + int (minute t) * 60 + int (second t)"

text \<open>\<open>(end_date - start_date).days\<close>\<close>

definition delta_days :: "datetime \<Rightarrow> datetime \<Rightarrow> int" where
  "delta_days end_date start_date = (seconds_of end_date - seconds_of start_date) div 86400"

text \<open>
  \<open>t + timedelta(days=k)\<close> for \<open>k \<ge> 0\<close>; \<open>None\<close> is the \<open>OverflowError\<close> raised
  past the last day of year 9999.
\<close>

definition add_days :: "datetime \<Rightarrow> nat \<Rightarrow> datetime option" where
  "add_days t k =
     (let n = to_ordinal t + k
      in if n > 3652059 then None
         else (case ord2ymd n of (y, m, d) \<Rightarrow> Some (t\<lparr>year := y, month := m, day := d\<rparr>)))"

section \<open>utils/sample\_data.py\<close>

text \<open>\<open>s.replace(old, new)\<close> for a non-empty \<open>old\<close>.\<close>

function replace :: "string \<Rightarrow> string \<Rightarrow> string \<Rightarrow> string" where
  "replace old new [] = []"
| "replace old new (c # s) =
     (if old \<noteq> [] \<and> take (length old) (c # s) = old
      then new @ replace old new (drop (length old) (c # s))
      else c # replace old new s)"
  by pat_completeness auto
termination
  by (relation "measure (\<lambda>(old, new, s). length s)") (auto simp: Suc_le_eq neq_Nil_conv)

definition positive_templates :: "string list" where
  "positive_templates =
     [''Great product! {company} has really helped our team improve productivity.'',
      ''Excellent tool. We've been using {company} for months and love it.'',
      ''Highly recommend {company}. It's user-friendly and powerful.'',
      ''Best decision we made. {company} transformed our workflow.'',
      ''Outstanding service. {company} exceeded our expectations.'',
      ''Love using {company}! It's intuitive and feature-rich.'',
      ''Perfect solution for our needs. {company} is fantastic.'',
      ''Great value for money. {company} delivers on all fronts.'',
      ''Impressive features. {company} has everything we need.'',
      ''Top-notch product. {company} is reliable and efficient.'']"

definition neutral_templates :: "string list" where
  "neutral_templates =
     [''Decent product. {company} works well but could use some improvements.'',
      ''Good overall, but {company} has a learning curve.'',
      ''Solid tool. {company} meets most of our requirements.'',
      ''Not bad. {company} does the job but isn't perfect.'',
      ''Average experience with {company}. It's functional.'',
      ''Okay product. {company} works but could be better.'',
      ''Fair tool. {company} has pros and cons.'',
      ''Decent solution. {company} is adequate for our needs.'']"

definition negative_templates :: "string list" where
  "negative_templates =
     [''Could be better. {company} lacks some key features we need.'',
      ''Not impressed. {company} doesn't meet our expectations.'',
      ''Needs improvement. {company} has some usability issues.'',
      ''Disappointing. {company} didn't work as advertised.'']"

definition titles :: "string list" where
  "titles =
     [''Great tool for teams'', ''Solid product'', ''Highly recommended'', ''Good value'',
      ''Works well'', ''Easy to use'', ''Feature-rich'', ''Reliable solution'',
      ''User-friendly'', ''Powerful features'']"

definition reviewer_names :: "string list" where
  "reviewer_names =
     [''John Smith'', ''Sarah Johnson'', ''Michael Chen'', ''Emily Rodriguez'',
      ''David Williams'', ''Lisa Anderson'', ''Robert Taylor'', ''Jennifer Brown'',
      ''James Wilson'', ''Maria Garcia'', ''William Martinez'', ''Patricia Davis'',
      ''Richard Miller'', ''Linda Moore'', ''Joseph Jackson'', ''Barbara White'']"

text \<open>
  The random module is a tape of numbers, read in the order of the calls: each
  review reads eight. \<open>randint(0, n)\<close> is the number modulo \<open>n + 1\<close>, \<open>choice\<close> and
  \<open>choices\<close> index the list by the number modulo its length (the weights change how
  often a rating comes up, not which ones can), and \<open>random() > p\<close> is the parity.
  Every sequence of results the module can give is the reading of some tape.
\<close>

type_synonym rng = "nat \<Rightarrow> nat"

definition randint0 :: "nat \<Rightarrow> nat \<Rightarrow> nat" where
  "randint0 r n = r mod (n + 1)"

definition choice :: "nat \<Rightarrow> 'a list \<Rightarrow> 'a" where
  "choice r xs = xs ! (r mod length xs)"

definition coin :: "nat \<Rightarrow> bool" where
  "coin r = (r mod 2 = 1)"

definition sample_review ::
  "rng \<Rightarrow> string \<Rightarrow> datetime \<Rightarrow> nat \<Rightarrow> string \<Rightarrow> nat \<Rightarrow> review option" where
  "sample_review R company start_date days_range src i =
     (let random_days = randint0 (R (8 * i)) days_range
      in case add_days start_date random_days of
           None \<Rightarrow> None
         | Some review_day \<Rightarrow>
             (let rating = choice (R (8 * i + 1)) [5, 4, 3, 2, 1 :: nat];
                  template =
                    (if rating \<ge> 4 then choice (R (8 * i + 2)) positive_templates
                     else if rating = 3 then choice (R (8 * i + 2)) neutral_templates
                     else choice (R (8 * i + 2)) negative_templates);
                  text0 = replace ''{company}'' company template;
                  text1 = (if coin (R (8 * i + 3))
                           then text0 @ '' The interface is clean and modern.'' else text0);
                  text2 = (if coin (R (8 * i + 4))
                           then text1 @ '' Customer support is responsive.'' else text1);
                  text3 = (if coin (R (8 * i + 5))
                           then text2 @ '' Pricing is reasonable for what you get.'' else text2)
              in Some \<lparr>title = choice (R (8 * i + 6)) titles,
                       review_text = text3,
                       review_date = strftime review_day ''%Y-%m-%d'',
                       reviewer = choice (R (8 * i + 7)) reviewer_names,
                       rating = str_nat rating,
                       source = src\<rparr>))"

text \<open>The \<open>for i in range(count)\<close> loop; an exception in one round ends the call.\<close>

fun sample_loop ::
  "rng \<Rightarrow> string \<Rightarrow> datetime \<Rightarrow> nat \<Rightarrow> string \<Rightarrow> nat list \<Rightarrow> review list \<Rightarrow> review list option" where
  "sample_loop R company start_date days_range src [] reviews = Some reviews"
| "sample_loop R company start_date days_range src (i # rest) reviews =
     (case sample_review R company start_date days_range src i of
        None \<Rightarrow> None
      | Some r \<Rightarrow> sample_loop R company start_date days_range src rest (reviews @ [r]))"

text \<open>\<open>reviews.sort(key=..., reverse=True)\<close>: stable, newest first.\<close>

definition sort_newest_first :: "review list \<Rightarrow> review list" where
  "sort_newest_first reviews = rev (sort_key review_date (rev reviews))"

definition generate_sample_reviews ::
  "rng \<Rightarrow> string \<Rightarrow> datetime \<Rightarrow> datetime \<Rightarrow> string \<Rightarrow> nat \<Rightarrow> review list option" where
  "generate_sample_reviews R company start_date end_date src count =
     (let d = delta_days end_date start_date;
          days_range = (if d < 1 then 365 else nat d)
      in map_option sort_newest_first
           (sample_loop R company start_date days_range src [0..<count] []))"

section \<open>BaseScraper.scrape, after the loop\<close>

definition scrape ::
  "adapter \<Rightarrow> env \<Rightarrow> rng \<Rightarrow> string \<Rightarrow> datetime \<Rightarrow> datetime \<Rightarrow> review list" where
  "scrape A E R company start_date end_date =
     (let r = scrape_loop A E start_date end_date (Some (get_company_url A company)) 1 []
      in if returned_early r then final_reviews r
         else if length (final_reviews r) = 0
         then (case generate_sample_reviews R company start_date end_date (get_source_name A) 10 of
                 Some sample_reviews \<Rightarrow> sample_reviews
               | None \<Rightarrow> final_reviews r)
         else final_reviews r)"

section \<open>The three adapters\<close>

definition is_alnum :: "char \<Rightarrow> bool" where
  "is_alnum c = (is_digit c \<or> is_upper c \<or> is_lower c)"

definition company_slug :: "string \<Rightarrow> string" where
  "company_slug company =
     filter (\<lambda>c. is_alnum c \<or> c = CHR ''-'')
       (replace ''.'' [] (replace ''&'' ''and'' (replace '' '' ''-'' (lower company))))"

definition G2Scraper ::
  "(node \<Rightarrow> node list) \<Rightarrow> (node \<Rightarrow> string \<Rightarrow> string option) \<Rightarrow> adapter" where
  "G2Scraper elements next_page =
     \<lparr>get_source_name = ''g2'',
      get_company_url = (\<lambda>company. ''https://www.g2.com/products/'' @ company_slug company @ ''/reviews''),
      get_review_elements = elements,
      parse_review = g2_parse_review,
      get_next_page_url = next_page\<rparr>"

definition CapterraScraper ::
  "(node \<Rightarrow> node list) \<Rightarrow> (node \<Rightarrow> string \<Rightarrow> string option) \<Rightarrow> adapter" where
  "CapterraScraper elements next_page =
     \<lparr>get_source_name = ''capterra'',
      get_company_url = (\<lambda>company. ''https://www.capterra.com/p/'' @ company_slug company @ ''/reviews''),
      get_review_elements = elements,
      parse_review = capterra_parse_review,
      get_next_page_url = next_page\<rparr>"

definition TrustpilotScraper ::
  "(node \<Rightarrow> node list) \<Rightarrow> (node \<Rightarrow> string \<Rightarrow> string option) \<Rightarrow> adapter" where
  "TrustpilotScraper elements next_page =
     \<lparr>get_source_name = ''trustpilot'',
      get_company_url = (\<lambda>company. ''https://www.trustpilot.com/review/'' @ company_slug company @ ''.com''),
      get_review_elements = elements,
      parse_review = trustpilot_parse_review,
      get_next_page_url = next_page\<rparr>"

section \<open>utils/request\_utils.py: fetch\_with\_retry\<close>

text \<open>
  The network is a function from the number of the request (counted from 0) to what
  \<open>requests.get\<close> followed by \<open>raise_for_status\<close> does on it: a response, a
  \<open>RequestException\<close> (connection failure, timeout, HTTP error status), or an
  exception of another class, which the \<open>except\<close> clause does not catch. The trace
  records the requests sent and the sleeps taken. The delay is a real number; the
  product of the source is a floating-point product, exact for the delay 1.0 that the
  program uses.
\<close>

datatype 'r attempt = Response 'r | RequestException | OtherException

datatype event = Request nat | Sleep real

datatype exn = Uncaught

fun retry_loop ::
  "(nat \<Rightarrow> 'r attempt) \<Rightarrow> int \<Rightarrow> real \<Rightarrow> int list \<Rightarrow> event list \<Rightarrow> (exn + 'r option) \<times> event list" where
  "retry_loop net max_retries delay [] trace = (Inr None, trace)"
| "retry_loop net max_retries delay (attempt # rest) trace =
     (case net (nat attempt) of
        Response response \<Rightarrow> (Inr (Some response), trace @ [Request (nat attempt)])
      | RequestException \<Rightarrow>
          if attempt < max_retries - 1
          then retry_loop net max_retries delay rest
                 (trace @ [Request (nat attempt), Sleep (delay * (of_int attempt + 1))])
          else (Inr None, trace @ [Request (nat attempt)])
      | OtherException \<Rightarrow> (Inl Uncaught, trace @ [Request (nat attempt)]))"

definition fetch_with_retry ::
  "(nat \<Rightarrow> 'r attempt) \<Rightarrow> int \<Rightarrow> real \<Rightarrow> (exn + 'r option) \<times> event list" where
  "fetch_with_retry net max_retries delay =
     retry_loop net max_retries delay [0..max_retries - 1] []"

text \<open>The call of \<open>get_soup\<close>: \<open>max_retries\<close> and \<open>delay\<close> at their defaults.\<close>

definition fetch_default :: "(nat \<Rightarrow> 'r attempt) \<Rightarrow> (exn + 'r option) \<times> event list" where
  "fetch_default net = fetch_with_retry net 3 1"

definition requests_sent :: "event list \<Rightarrow> nat" where
  "requests_sent trace = length (filter (\<lambda>e. case e of Request n \<Rightarrow> True | Sleep d \<Rightarrow> False) trace)"

section \<open>The first record of a page\<close>

text \<open>
  The first record of a page is the first element of the page, in the order of
  discovery, that \<open>parse_review\<close> turns into a record. It is too old when its date
  parses and is strictly earlier than the start date.
\<close>

definition first_record :: "adapter \<Rightarrow> env \<Rightarrow> node \<Rightarrow> review option" where
  "first_record A E soup =
     (case List.map_filter (parse_review A) (page_elements A E soup) of
        [] \<Rightarrow> None
      | r # _ \<Rightarrow> Some r)"

definition too_old :: "datetime \<Rightarrow> review \<Rightarrow> bool" where
  "too_old start_date r =
     (case parse_date (review_date r) of None \<Rightarrow> False | Some d \<Rightarrow> datetime_lt d start_date)"

definition first_record_too_old :: "adapter \<Rightarrow> env \<Rightarrow> datetime \<Rightarrow> page_log \<Rightarrow> bool" where
  "first_record_too_old A E start_date l =
     (case pl_soup l of
        None \<Rightarrow> False
      | Some soup \<Rightarrow>
          (case first_record A E soup of None \<Rightarrow> False | Some r \<Rightarrow> too_old start_date r))"

section \<open>Checking a property on an initial segment of the naturals\<close>

fun all_upto :: "(nat \<Rightarrow> bool) \<Rightarrow> nat \<Rightarrow> bool" where
  "all_upto P 0 = P 0"
| "all_upto P (Suc n) = (P (Suc n) \<and> all_upto P n)"

text \<open>
  The scenario of the sample data: the window from the first of January to the first
  of June 2024. A day offset is fine when the day it leads to is a date of the window.
\<close>

definition day_ok :: "nat \<Rightarrow> bool" where
  "day_ok k =
     (case add_days (mk_date 2024 1 1) k of
        None \<Rightarrow> False
      | Some t \<Rightarrow> valid_datetime t \<and> hour t = 0 \<and> minute t = 0 \<and> second t = 0
                 \<and> is_date_in_range t (mk_date 2024 1 1) (mk_date 2024 6 1))"

text \<open>A sample review is fine when it names the source and its date is one of the window.\<close>

definition sample_ok :: "string \<Rightarrow> review \<Rightarrow> bool" where
  "sample_ok src r =
     (source r = src
      \<and> (\<exists>t. review_date r = strftime t ''%Y-%m-%d'' \<and> parse_date (review_date r) = Some t
             \<and> is_date_in_range t (mk_date 2024 1 1) (mk_date 2024 6 1)))"

section \<open>Example documents\<close>

definition old_element :: node where
  "old_element = Tag ''article'' [(''class'', ''review'')]
     [Tag ''h2'' [] [Text NavigableString ''Solid product''],
      Tag ''time'' [(''datetime'', ''2023-12-31'')] []]"

definition good_element :: node where
  "good_element = Tag ''article'' [(''class'', ''review card'')]
     [Tag ''h2'' [] [Text NavigableString '' Great tool ''],
      Tag ''p'' [(''class'', ''review-body'')]
        [Text NavigableString ''We have used this product for months and it is excellent.''],
      Tag ''time'' [(''datetime'', ''2024-03-05'')] [Text NavigableString ''March 5''],
      Tag ''span'' [(''class'', ''user-name'')] [Text NavigableString ''Ann''],
      Tag ''div'' [(''class'', ''rating'')]
        [Tag ''svg'' [(''class'', ''star filled'')] [], Tag ''svg'' [(''class'', ''star'')] []]]"

definition nested_outer :: node where
  "nested_outer = Tag ''div'' []
     [Tag ''div'' []
        [Tag ''p'' []
           [Text NavigableString ''This review says the product is reliable, quick to set up and well supported by the vendor team over the whole year.'']]]"

definition nested_doc :: node where
  "nested_doc = Tag ''[document]'' [] [nested_outer]"

text \<open>The same sentence held by a \<open>script\<close> tag below the \<open>div\<close>, beside two empty paragraphs.\<close>

definition script_outer :: node where
  "script_outer = Tag ''div'' []
     [Tag ''script'' []
        [Text Script ''This review says the product is reliable, quick to set up and well supported by the vendor team over the whole year.''],
      Tag ''p'' [] [],
      Tag ''p'' [] []]"

definition script_doc :: node where
  "script_doc = Tag ''[document]'' [] [script_outer]"

text \<open>A site of two pages: a review of March 2024, then one of December 2023.\<close>

definition two_pages :: env where
  "two_pages =
     \<lparr>get_soup = (\<lambda>n u. if n = 1 then Some (Tag ''[document]'' [] [good_element])
                         else Some (Tag ''[document]'' [] [old_element, good_element])),
      json_candidates = (\<lambda>soup. [])\<rparr>"

definition articles :: "node \<Rightarrow> node list" where
  "articles soup = find_all [''article''] (class_has [''review'']) None soup"

definition same_url :: "node \<Rightarrow> string \<Rightarrow> string option" where
  "same_url soup u = Some u"

text \<open>A site that answers every request with an empty document.\<close>

definition endless :: env where
  "endless = \<lparr>get_soup = (\<lambda>n u. Some (Tag ''[document]'' [] [])), json_candidates = (\<lambda>soup. [])\<rparr>"

text \<open>A site that answers no request.\<close>

definition blocked :: env where
  "blocked = \<lparr>get_soup = (\<lambda>n u. None), json_candidates = (\<lambda>soup. [])\<rparr>"

definition next_link :: "node \<Rightarrow> string \<Rightarrow> string option" where
  "next_link soup u = Some ''https://www.trustpilot.com/review/notion.com?page=next''"

definition one_good :: "node \<Rightarrow> node list" where
  "one_good soup = [good_element]"

section \<open>Properties of the date utilities\<close>

lemma datetime_le_refl: "datetime_le a a"
  by (simp add: datetime_le_def)

lemma datetime_lt_not_le: "datetime_lt a b \<longleftrightarrow> \<not> datetime_le b a"
  by (simp add: datetime_lt_def datetime_le_def not_le)

text \<open>
  C2. \<open>should_stop_scraping\<close> is true exactly when the date parsed (is not \<open>None\<close>)
  and is strictly earlier than the start date; on \<open>None\<close>, and so on every string
  that \<open>parse_date\<close> cannot parse, it is false.
\<close>

theorem should_stop_scraping_iff:
  "(should_stop_scraping r start \<longleftrightarrow> (\<exists>d. r = Some d \<and> datetime_lt d start))
   \<and> should_stop_scraping None start = False
   \<and> (parse_date s = None \<longrightarrow> \<not> should_stop_scraping (parse_date s) start)"
  by (cases r) (simp_all add: should_stop_scraping_def)

theorem should_stop_scraping_iff_witness:
  "parse_date ''yesterday'' = None
   \<and> \<not> should_stop_scraping (parse_date ''yesterday'') (mk_date 2024 1 1)
   \<and> should_stop_scraping (parse_date ''2023-12-31'') (mk_date 2024 1 1)
   \<and> \<not> should_stop_scraping (parse_date ''2024-01-01'') (mk_date 2024 1 1)"
proof -
  have n: "parse_date ''yesterday'' = None"
    by code_simp
  have a: "should_stop_scraping (parse_date ''2023-12-31'') (mk_date 2024 1 1)"
    by code_simp
  have b: "\<not> should_stop_scraping (parse_date ''2024-01-01'') (mk_date 2024 1 1)"
    by code_simp
  from should_stop_scraping_iff [of "None" "mk_date 2024 1 1" "''yesterday''"] n a b
  show ?thesis by simp
qed

subsection \<open>Round trip through the supported formats\<close>

text \<open>The ten decimal digits, for case analysis on \<open>k mod 10\<close>.\<close>

lemma less10_cases:
  fixes k :: nat
  assumes "k < 10"
  shows "k = 9 \<or> k = 8 \<or> k = 7 \<or> k = 6 \<or> k = 5 \<or> k = 4 \<or> k = 3 \<or> k = 2 \<or> k = 1 \<or> k = 0"
  using assms by arith

lemma digit_char_props:
  "is_digit (digit_char n) \<and> digit_val (digit_char n) = n mod 10 \<and> \<not> is_space (digit_char n)
   \<and> to_lower (digit_char n) = digit_char n \<and> digit_char n \<noteq> CHR ''/'' \<and> digit_char n \<noteq> CHR ''-'' \<and> digit_char n \<noteq> CHR '' ''"
proof -
  have "n mod 10 < 10" by simp
  from less10_cases [OF this] show ?thesis
    by (elim disjE) (simp_all add: digit_char_def is_digit_def digit_val_def is_space_def to_lower_def is_upper_def)
qed

lemma two_digits_pad2:
  "two_digits ok (pad2 n @ rest) = (if ok (n div 10 mod 10) (n mod 10) then Some (10 * (n div 10 mod 10) + n mod 10, rest) else None)"
  by (simp add: pad2_def digit_char_props)

lemma dec2: "10 * (n div 10 mod 10) + n mod 10 = (n::nat) mod 100"
  using mod_mult2_eq [of n 10 10] by simp

lemma dec4:
  assumes "y < 10000"
  shows "1000 * (y div 1000 mod 10) + 100 * (y div 100 mod 10) + 10 * (y div 10 mod 10) + y mod 10 = (y::nat)"
proof -
  have a: "y mod 100 = 10 * (y div 10 mod 10) + y mod 10"
    using mod_mult2_eq [of y 10 10] by simp
  have b: "y mod 1000 = 100 * (y div 100 mod 10) + y mod 100"
    using mod_mult2_eq [of y 100 10] by simp
  have c: "y mod 10000 = 1000 * (y div 1000 mod 10) + y mod 1000"
    using mod_mult2_eq [of y 1000 10] by simp
  from assms have "y mod 10000 = y" by simp
  with a b c show ?thesis by simp
qed

lemma re_Y_pad4:
  assumes "y < 10000"
  shows "re_Y (pad4 y @ rest) = Some (y, rest)"
  using assms dec4 [OF assms] by (simp add: pad4_def digit_char_props)

lemma month_cases:
  "1 \<le> m \<Longrightarrow> m \<le> 12 \<Longrightarrow>
   m = 1 \<or> m = 2 \<or> m = 3 \<or> m = 4 \<or> m = 5 \<or> m = 6 \<or> m = 7 \<or> m = 8 \<or> m = 9 \<or> m = 10 \<or> m = 11 \<or> m = (12::nat)"
  by arith

lemma re_m_pad2:
  assumes "1 \<le> m" "m \<le> 12"
  shows "re_m (pad2 m @ rest) = Some (m, rest)"
  using month_cases [OF assms]
  by (elim disjE) (simp_all add: re_m_def two_digits_pad2)

lemma two_digits_pad2_lt:
  assumes "n < 100"
  shows "two_digits ok (pad2 n @ rest) = (if ok (n div 10) (n mod 10) then Some (n, rest) else None)"
  using assms by (simp add: two_digits_pad2)

lemma re_d_pad2:
  assumes "1 \<le> d" "d \<le> 31"
  shows "re_d (pad2 d @ rest) = Some (d, rest)"
proof -
  have lt: "d < 100" using assms by simp
  have "d div 10 = 0 \<and> 1 \<le> d mod 10 \<or> 1 \<le> d div 10 \<and> d div 10 \<le> 2 \<or> d div 10 = 3 \<and> d mod 10 \<le> 1"
    using assms by arith
  then show ?thesis
    by (auto simp: re_d_def two_digits_pad2_lt [OF lt])
qed

lemma re_HMS_zero:
  "re_H (pad2 0 @ rest) = Some (0, rest)"
  "re_M (pad2 0 @ rest) = Some (0, rest)"
  "re_S (pad2 0 @ rest) = Some (0, rest)"
  by (simp_all add: re_H_def re_M_def re_S_def two_digits_pad2)

lemma to_lower_simps:
  "to_lower (CHR ''-'') = CHR ''-''" "to_lower (CHR ''/'') = CHR ''/''" "to_lower (CHR '','') = CHR '',''"
  "to_lower (CHR '':'') = CHR '':''"
  by (simp_all add: to_lower_def is_upper_def)

lemma is_space_simps:
  "is_space (CHR '' '')" "\<not> is_space (CHR ''-'')" "\<not> is_space (CHR ''/'')" "\<not> is_space (CHR '','')"
  "\<not> is_space (CHR '':'')" "\<not> is_space (CHR ''%'')"
  by (simp_all add: is_space_def)

lemma match_full:
  assumes "1 \<le> m" "m \<le> 12"
  shows "match_name month_names 1 (Month_names ! (m - 1) @ rest) = Some (m, rest)"
  using month_cases [OF assms]
  by (elim disjE) (simp_all add: month_names_def Month_names_def lower_def to_lower_def is_upper_def)

lemma match_abbr:
  assumes "1 \<le> m" "m \<le> 12"
  shows "match_name month_abbrs 1 (Month_abbrs ! (m - 1) @ rest) = Some (m, rest)"
  using month_cases [OF assms]
  by (elim disjE) (simp_all add: month_abbrs_def Month_abbrs_def lower_def to_lower_def is_upper_def)

lemma directive_Y: "y < 10000 \<Longrightarrow> directive (CHR ''Y'') (pad4 y @ rest) t = Some (t\<lparr>year := y\<rparr>, rest)"
  by (simp add: directive_def re_Y_pad4)
lemma directive_m: "1 \<le> m \<Longrightarrow> m \<le> 12 \<Longrightarrow> directive (CHR ''m'') (pad2 m @ rest) t = Some (t\<lparr>month := m\<rparr>, rest)"
  by (simp add: directive_def re_m_pad2)
lemma directive_d: "1 \<le> d \<Longrightarrow> d \<le> 31 \<Longrightarrow> directive (CHR ''d'') (pad2 d @ rest) t = Some (t\<lparr>day := d\<rparr>, rest)"
  by (simp add: directive_def re_d_pad2)
lemma directive_B: "1 \<le> m \<Longrightarrow> m \<le> 12 \<Longrightarrow> directive (CHR ''B'') (Month_names ! (m - 1) @ rest) t = Some (t\<lparr>month := m\<rparr>, rest)"
  by (simp add: directive_def match_full [unfolded One_nat_def])
lemma directive_b: "1 \<le> m \<Longrightarrow> m \<le> 12 \<Longrightarrow> directive (CHR ''b'') (Month_abbrs ! (m - 1) @ rest) t = Some (t\<lparr>month := m\<rparr>, rest)"
  by (simp add: directive_def match_abbr [unfolded One_nat_def])
lemma directive_HMS:
  "directive (CHR ''H'') (pad2 0 @ rest) t = Some (t\<lparr>hour := 0\<rparr>, rest)"
  "directive (CHR ''M'') (pad2 0 @ rest) t = Some (t\<lparr>minute := 0\<rparr>, rest)"
  "directive (CHR ''S'') (pad2 0 @ rest) t = Some (t\<lparr>second := 0\<rparr>, rest)"
  by (simp_all add: directive_def re_HMS_zero)

lemma dropWhile_pad:
  "dropWhile is_space (pad2 n @ rest) = pad2 n @ rest"
  "dropWhile is_space (pad4 n @ rest) = pad4 n @ rest"
  by (simp_all add: pad2_def pad4_def digit_char_props)

lemma dropWhile_Month:
  assumes "1 \<le> m" "m \<le> 12"
  shows "dropWhile is_space (Month_names ! (m - 1) @ rest) = Month_names ! (m - 1) @ rest"
    "dropWhile is_space (Month_abbrs ! (m - 1) @ rest) = Month_abbrs ! (m - 1) @ rest"
  using month_cases [OF assms]
  by (elim disjE; simp add: Month_names_def Month_abbrs_def is_space_def)+

lemma directive_nil:
  "y < 10000 \<Longrightarrow> directive (CHR ''Y'') (pad4 y) t = Some (t\<lparr>year := y\<rparr>, [])"
  "1 \<le> d \<Longrightarrow> d \<le> 31 \<Longrightarrow> directive (CHR ''d'') (pad2 d) t = Some (t\<lparr>day := d\<rparr>, [])"
  "directive (CHR ''S'') (pad2 0) t = Some (t\<lparr>second := 0\<rparr>, [])"
  using directive_Y [of y "[]" t] directive_d [of d "[]" t] directive_HMS(3) [of "[]" t] by simp_all

lemma dropWhile_pad_nil:
  "dropWhile is_space (pad2 n) = pad2 n"
  "dropWhile is_space (pad4 n) = pad4 n"
  using dropWhile_pad [of n "[]"] by simp_all

lemmas sm0 = directive_nil dropWhile_pad_nil directive_Y directive_m directive_d directive_B directive_b directive_HMS
  dropWhile_pad dropWhile_Month to_lower_simps is_space_simps
lemmas sm = sm0 [unfolded One_nat_def]

lemma F1_R1:
  "y < 10000 \<Longrightarrow> 1 \<le> m \<Longrightarrow> m \<le> 12 \<Longrightarrow> 1 \<le> d \<Longrightarrow> d \<le> 31 \<Longrightarrow>
   strptime_match ''%Y-%m-%d'' (pad4 y @ ''-'' @ pad2 m @ ''-'' @ pad2 d) t = Some (t\<lparr>year := y, month := m, day := d\<rparr>)"
  by (simp add: sm)

lemma F2_R2:
  "y < 10000 \<Longrightarrow> 1 \<le> m \<Longrightarrow> m \<le> 12 \<Longrightarrow> 1 \<le> d \<Longrightarrow> d \<le> 31 \<Longrightarrow>
   strptime_match ''%B %d, %Y'' (Month_names ! (m - 1) @ '' '' @ pad2 d @ '', '' @ pad4 y) t = Some (t\<lparr>month := m, day := d, year := y\<rparr>)"
  by (simp add: sm)

lemma F3_R3:
  "y < 10000 \<Longrightarrow> 1 \<le> m \<Longrightarrow> m \<le> 12 \<Longrightarrow> 1 \<le> d \<Longrightarrow> d \<le> 31 \<Longrightarrow>
   strptime_match ''%b %d, %Y'' (Month_abbrs ! (m - 1) @ '' '' @ pad2 d @ '', '' @ pad4 y) t = Some (t\<lparr>month := m, day := d, year := y\<rparr>)"
  by (simp add: sm)

lemma F4_R4:
  "y < 10000 \<Longrightarrow> 1 \<le> m \<Longrightarrow> m \<le> 12 \<Longrightarrow> 1 \<le> d \<Longrightarrow> d \<le> 31 \<Longrightarrow>
   strptime_match ''%d %B %Y'' (pad2 d @ '' '' @ Month_names ! (m - 1) @ '' '' @ pad4 y) t = Some (t\<lparr>day := d, month := m, year := y\<rparr>)"
  by (simp add: sm)

lemma F5_R5:
  "y < 10000 \<Longrightarrow> 1 \<le> m \<Longrightarrow> m \<le> 12 \<Longrightarrow> 1 \<le> d \<Longrightarrow> d \<le> 31 \<Longrightarrow>
   strptime_match ''%d %b %Y'' (pad2 d @ '' '' @ Month_abbrs ! (m - 1) @ '' '' @ pad4 y) t = Some (t\<lparr>day := d, month := m, year := y\<rparr>)"
  by (simp add: sm)

lemma F6_R6:
  "y < 10000 \<Longrightarrow> 1 \<le> m \<Longrightarrow> m \<le> 12 \<Longrightarrow> 1 \<le> d \<Longrightarrow> d \<le> 31 \<Longrightarrow>
   strptime_match ''%m/%d/%Y'' (pad2 m @ ''/'' @ pad2 d @ ''/'' @ pad4 y) t = Some (t\<lparr>month := m, day := d, year := y\<rparr>)"
  by (simp add: sm)

lemma F7_R7:
  "y < 10000 \<Longrightarrow> 1 \<le> m \<Longrightarrow> m \<le> 12 \<Longrightarrow> 1 \<le> d \<Longrightarrow> d \<le> 31 \<Longrightarrow>
   strptime_match ''%d/%m/%Y'' (pad2 d @ ''/'' @ pad2 m @ ''/'' @ pad4 y) t = Some (t\<lparr>day := d, month := m, year := y\<rparr>)"
  by (simp add: sm)

lemma F8_R8:
  "y < 10000 \<Longrightarrow> 1 \<le> m \<Longrightarrow> m \<le> 12 \<Longrightarrow> 1 \<le> d \<Longrightarrow> d \<le> 31 \<Longrightarrow>
   strptime_match ''%Y-%m-%d %H:%M:%S'' (pad4 y @ ''-'' @ pad2 m @ ''-'' @ pad2 d @ '' '' @ pad2 0 @ '':'' @ pad2 0 @ '':'' @ pad2 0) t
     = Some (t\<lparr>year := y, month := m, day := d, hour := 0, minute := 0, second := 0\<rparr>)"
  by (simp add: sm)

lemma re_Y_fail1: "\<not> is_digit a \<Longrightarrow> re_Y (a # s) = None"
  by (cases "(a # s)" rule: re_Y.cases) auto

lemma re_Y_fail3: "\<not> is_digit c \<Longrightarrow> re_Y (a # b # c # s) = None"
  by (cases "(a # b # c # s)" rule: re_Y.cases) auto

lemma directive_Y_pad2:
  "\<not> is_digit c \<Longrightarrow> directive (CHR ''Y'') (pad2 n @ c # s) t = None"
  by (simp add: directive_def pad2_def re_Y_fail3)

lemma directive_Y_Month:
  assumes "1 \<le> m" "m \<le> 12"
  shows "directive (CHR ''Y'') (Month_names ! (m - 1) @ s) t = None"
    "directive (CHR ''Y'') (Month_abbrs ! (m - 1) @ s) t = None"
  using month_cases [OF assms]
  by (elim disjE; simp add: directive_def Month_names_def Month_abbrs_def re_Y_fail1 is_digit_def)+

lemma match_name_digit:
  "match_name month_names i (digit_char n # s) = None"
  "match_name month_abbrs i (digit_char n # s) = None"
proof -
  have "n mod 10 < 10" by simp
  from less10_cases [OF this]
  show "match_name month_names i (digit_char n # s) = None"
    by (elim disjE) (simp_all add: month_names_def lower_def digit_char_def to_lower_def is_upper_def)
  from less10_cases [OF \<open>n mod 10 < 10\<close>]
  show "match_name month_abbrs i (digit_char n # s) = None"
    by (elim disjE) (simp_all add: month_abbrs_def lower_def digit_char_def to_lower_def is_upper_def)
qed

lemma directive_B_digit:
  "directive (CHR ''B'') (pad2 n @ s) t = None"
  "directive (CHR ''b'') (pad2 n @ s) t = None"
  "directive (CHR ''B'') (pad4 n @ s) t = None"
  "directive (CHR ''b'') (pad4 n @ s) t = None"
  by (simp_all add: directive_def pad2_def pad4_def match_name_digit)

lemma directive_B_abbr:
  assumes "1 \<le> m" "m \<le> 12"
  shows "directive (CHR ''B'') (Month_abbrs ! (m - 1) @ CHR '' '' # s) t =
     (if m = 5 then Some (t\<lparr>month := 5\<rparr>, CHR '' '' # s) else None)"
  using month_cases [OF assms]
  by (elim disjE)
     (simp_all add: directive_def month_names_def Month_abbrs_def lower_def to_lower_def is_upper_def)

text \<open>After \<open>%d\<close> or \<open>%m\<close> has read from a four-digit year, a digit comes next.\<close>
lemma d_then_space_pad4:
  "(case directive (CHR ''d'') (pad4 y @ s) t of None \<Rightarrow> None
    | Some (t', s') \<Rightarrow> strptime_match (CHR '' '' # f) s' t') = None"
  by (simp add: directive_def re_d_def pad4_def digit_char_props is_space_simps)

lemma d_then_slash_pad4:
  "(case directive (CHR ''d'') (pad4 y @ s) t of None \<Rightarrow> None
    | Some (t', s') \<Rightarrow> strptime_match (CHR ''/'' # f) s' t') = None"
  by (simp add: directive_def re_d_def pad4_def digit_char_props is_space_simps to_lower_simps)

lemma m_then_slash_pad4:
  "(case directive (CHR ''m'') (pad4 y @ s) t of None \<Rightarrow> None
    | Some (t', s') \<Rightarrow> strptime_match (CHR ''/'' # f) s' t') = None"
  by (simp add: directive_def re_m_def pad4_def digit_char_props is_space_simps to_lower_simps)

lemma m_then_slash_big:
  assumes "12 < d" "d \<le> 31"
  shows "(case directive (CHR ''m'') (pad2 d @ s) t of None \<Rightarrow> None
    | Some (t', s') \<Rightarrow> strptime_match (CHR ''/'' # f) s' t') = None"
proof -
  have lt: "d < 100" using assms by simp
  have a: "\<not> (d div 10 = 1 \<and> d mod 10 \<le> 2)" "d div 10 \<noteq> 0" using assms by arith+
  have "two_digits (\<lambda>a b. a = 1 \<and> b \<le> 2) (pad2 d @ s) = None"
       "two_digits (\<lambda>a b. a = 0 \<and> 1 \<le> b) (pad2 d @ s) = None"
    using a by (simp_all add: two_digits_pad2_lt [OF lt])
  then show ?thesis
    by (simp add: directive_def re_m_def) (simp add: pad2_def digit_char_props is_space_simps to_lower_simps)
qed

lemma days_in_month_bounds:
  assumes "1 \<le> m" "m \<le> 12"
  shows "28 \<le> days_in_month y m \<and> days_in_month y m \<le> 31"
  using month_cases [OF assms]
  by (elim disjE) (simp_all add: days_in_month_def)

lemma strip_id:
  assumes "\<not> is_space a" "\<not> is_space b"
  shows "strip (a # s @ [b]) = a # s @ [b]"
  using assms by (simp add: strip_def)

lemma strip_id2: "s \<noteq> [] \<Longrightarrow> \<not> is_space (hd s) \<Longrightarrow> \<not> is_space (last s) \<Longrightarrow> strip s = s"
proof -
  assume a: "s \<noteq> []" "\<not> is_space (hd s)" "\<not> is_space (last s)"
  then have 1: "dropWhile is_space s = s" by (cases s) simp_all
  from a have 2: "dropWhile is_space (rev s) = rev s"
    by (cases "rev s") (simp_all add: hd_rev [symmetric])
  show ?thesis by (simp add: strip_def 1 2)
qed

lemma hd_Month:
  assumes "1 \<le> m" "m \<le> 12"
  shows "\<not> is_space (hd (Month_names ! (m - 1)))" "\<not> is_space (hd (Month_abbrs ! (m - 1)))"
     "Month_names ! (m - 1) \<noteq> []" "Month_abbrs ! (m - 1) \<noteq> []"
  using month_cases [OF assms]
  by (elim disjE; simp add: Month_names_def Month_abbrs_def is_space_def)+

lemma hd_last_pad:
  "\<not> is_space (hd (pad2 n))" "\<not> is_space (hd (pad4 n))"
  "\<not> is_space (last (pad2 n))" "\<not> is_space (last (pad4 n))"
  "pad2 n \<noteq> []" "pad4 n \<noteq> []"
  by (simp_all add: pad2_def pad4_def digit_char_props)

lemmas sp = hd_last_pad hd_Month [unfolded One_nat_def]

lemmas fl = sm directive_Y_pad2 directive_Y_Month [unfolded One_nat_def] directive_B_digit
  directive_B_abbr [unfolded One_nat_def] d_then_space_pad4 d_then_slash_pad4 m_then_slash_pad4

lemma not_digit: "\<not> is_digit (CHR '' '')" "\<not> is_digit (CHR ''/'')"
  by (simp_all add: is_digit_def)


lemma R1:
  assumes v: "1 \<le> y" "y < 10000" "1 \<le> m" "m \<le> 12" "1 \<le> d" "d \<le> 31"
  shows "strptime_match ''%Y-%m-%d'' (pad4 y @ CHR ''-'' # pad2 m @ CHR ''-'' # pad2 d) t
  = Some (t\<lparr>year := y, month := m, day := d\<rparr>)"
  using v by (simp add: fl)

lemma R2:
  assumes v: "1 \<le> y" "y < 10000" "1 \<le> m" "m \<le> 12" "1 \<le> d" "d \<le> 31"
  shows "strptime_match ''%Y-%m-%d'' (Month_names ! (m - Suc 0) @ CHR '' '' # pad2 d @ CHR '','' # CHR '' '' # pad4 y) t = None"
  "strptime_match ''%B %d, %Y'' (Month_names ! (m - Suc 0) @ CHR '' '' # pad2 d @ CHR '','' # CHR '' '' # pad4 y) t
    = Some (t\<lparr>month := m, day := d, year := y\<rparr>)"
  using v by (simp_all add: fl)

lemma R3:
  assumes v: "1 \<le> y" "y < 10000" "1 \<le> m" "m \<le> 12" "1 \<le> d" "d \<le> 31"
  shows "strptime_match ''%Y-%m-%d'' (Month_abbrs ! (m - Suc 0) @ CHR '' '' # pad2 d @ CHR '','' # CHR '' '' # pad4 y) t = None"
  "strptime_match ''%B %d, %Y'' (Month_abbrs ! (m - Suc 0) @ CHR '' '' # pad2 d @ CHR '','' # CHR '' '' # pad4 y) t
    = (if m = 5 then Some (t\<lparr>month := m, day := d, year := y\<rparr>) else None)"
  "strptime_match ''%b %d, %Y'' (Month_abbrs ! (m - Suc 0) @ CHR '' '' # pad2 d @ CHR '','' # CHR '' '' # pad4 y) t
    = Some (t\<lparr>month := m, day := d, year := y\<rparr>)"
  using v by (simp_all add: fl)

lemma R4:
  assumes v: "1 \<le> y" "y < 10000" "1 \<le> m" "m \<le> 12" "1 \<le> d" "d \<le> 31"
  shows "strptime_match ''%Y-%m-%d'' (pad2 d @ CHR '' '' # Month_names ! (m - Suc 0) @ CHR '' '' # pad4 y) t = None"
  "strptime_match ''%B %d, %Y'' (pad2 d @ CHR '' '' # Month_names ! (m - Suc 0) @ CHR '' '' # pad4 y) t = None"
  "strptime_match ''%b %d, %Y'' (pad2 d @ CHR '' '' # Month_names ! (m - Suc 0) @ CHR '' '' # pad4 y) t = None"
  "strptime_match ''%d %B %Y'' (pad2 d @ CHR '' '' # Month_names ! (m - Suc 0) @ CHR '' '' # pad4 y) t
    = Some (t\<lparr>day := d, month := m, year := y\<rparr>)"
  using v by (simp_all add: fl not_digit)

lemma R5:
  assumes v: "1 \<le> y" "y < 10000" "1 \<le> m" "m \<le> 12" "1 \<le> d" "d \<le> 31"
  shows "strptime_match ''%Y-%m-%d'' (pad2 d @ CHR '' '' # Month_abbrs ! (m - Suc 0) @ CHR '' '' # pad4 y) t = None"
  "strptime_match ''%B %d, %Y'' (pad2 d @ CHR '' '' # Month_abbrs ! (m - Suc 0) @ CHR '' '' # pad4 y) t = None"
  "strptime_match ''%b %d, %Y'' (pad2 d @ CHR '' '' # Month_abbrs ! (m - Suc 0) @ CHR '' '' # pad4 y) t = None"
  "strptime_match ''%d %B %Y'' (pad2 d @ CHR '' '' # Month_abbrs ! (m - Suc 0) @ CHR '' '' # pad4 y) t
    = (if m = 5 then Some (t\<lparr>day := d, month := m, year := y\<rparr>) else None)"
  "strptime_match ''%d %b %Y'' (pad2 d @ CHR '' '' # Month_abbrs ! (m - Suc 0) @ CHR '' '' # pad4 y) t
    = Some (t\<lparr>day := d, month := m, year := y\<rparr>)"
  using v by (simp_all add: fl not_digit)

lemma R6:
  assumes v: "1 \<le> y" "y < 10000" "1 \<le> m" "m \<le> 12" "1 \<le> d" "d \<le> 31"
  shows "strptime_match ''%Y-%m-%d'' (pad2 m @ CHR ''/'' # pad2 d @ CHR ''/'' # pad4 y) t = None"
  "strptime_match ''%B %d, %Y'' (pad2 m @ CHR ''/'' # pad2 d @ CHR ''/'' # pad4 y) t = None"
  "strptime_match ''%b %d, %Y'' (pad2 m @ CHR ''/'' # pad2 d @ CHR ''/'' # pad4 y) t = None"
  "strptime_match ''%d %B %Y'' (pad2 m @ CHR ''/'' # pad2 d @ CHR ''/'' # pad4 y) t = None"
  "strptime_match ''%d %b %Y'' (pad2 m @ CHR ''/'' # pad2 d @ CHR ''/'' # pad4 y) t = None"
  "strptime_match ''%m/%d/%Y'' (pad2 m @ CHR ''/'' # pad2 d @ CHR ''/'' # pad4 y) t
    = Some (t\<lparr>month := m, day := d, year := y\<rparr>)"
  using v by (simp_all add: fl not_digit)

lemma R7:
  assumes v: "1 \<le> y" "y < 10000" "1 \<le> m" "m \<le> 12" "1 \<le> d" "d \<le> 31"
  shows "strptime_match ''%Y-%m-%d'' (pad2 d @ CHR ''/'' # pad2 m @ CHR ''/'' # pad4 y) t = None"
  "strptime_match ''%B %d, %Y'' (pad2 d @ CHR ''/'' # pad2 m @ CHR ''/'' # pad4 y) t = None"
  "strptime_match ''%b %d, %Y'' (pad2 d @ CHR ''/'' # pad2 m @ CHR ''/'' # pad4 y) t = None"
  "strptime_match ''%d %B %Y'' (pad2 d @ CHR ''/'' # pad2 m @ CHR ''/'' # pad4 y) t = None"
  "strptime_match ''%d %b %Y'' (pad2 d @ CHR ''/'' # pad2 m @ CHR ''/'' # pad4 y) t = None"
  "strptime_match ''%d/%m/%Y'' (pad2 d @ CHR ''/'' # pad2 m @ CHR ''/'' # pad4 y) t
    = Some (t\<lparr>day := d, month := m, year := y\<rparr>)"
  using v by (simp_all add: fl not_digit)

lemma R7_6:
  assumes v: "1 \<le> y" "y < 10000" "1 \<le> m" "m \<le> 12" "1 \<le> d" "d \<le> 31"
  shows "strptime_match ''%m/%d/%Y'' (pad2 d @ CHR ''/'' # pad2 m @ CHR ''/'' # pad4 y) t
    = (if d \<le> 12 then Some (t\<lparr>month := d, day := m, year := y\<rparr>) else None)"
proof (cases "d \<le> 12")
  case True
  with v show ?thesis by (simp add: fl)
next
  case False
  with v m_then_slash_big [of d] show ?thesis by simp
qed

lemma R8:
  assumes v: "1 \<le> y" "y < 10000" "1 \<le> m" "m \<le> 12" "1 \<le> d" "d \<le> 31"
  shows "strptime_match ''%Y-%m-%d'' (pad4 y @ CHR ''-'' # pad2 m @ CHR ''-'' # pad2 d @ CHR '' '' # pad2 0 @ CHR '':'' # pad2 0 @ CHR '':'' # pad2 0) t = None"
  "strptime_match ''%B %d, %Y'' (pad4 y @ CHR ''-'' # pad2 m @ CHR ''-'' # pad2 d @ CHR '' '' # pad2 0 @ CHR '':'' # pad2 0 @ CHR '':'' # pad2 0) t = None"
  "strptime_match ''%b %d, %Y'' (pad4 y @ CHR ''-'' # pad2 m @ CHR ''-'' # pad2 d @ CHR '' '' # pad2 0 @ CHR '':'' # pad2 0 @ CHR '':'' # pad2 0) t = None"
  "strptime_match ''%d %B %Y'' (pad4 y @ CHR ''-'' # pad2 m @ CHR ''-'' # pad2 d @ CHR '' '' # pad2 0 @ CHR '':'' # pad2 0 @ CHR '':'' # pad2 0) t = None"
  "strptime_match ''%d %b %Y'' (pad4 y @ CHR ''-'' # pad2 m @ CHR ''-'' # pad2 d @ CHR '' '' # pad2 0 @ CHR '':'' # pad2 0 @ CHR '':'' # pad2 0) t = None"
  "strptime_match ''%m/%d/%Y'' (pad4 y @ CHR ''-'' # pad2 m @ CHR ''-'' # pad2 d @ CHR '' '' # pad2 0 @ CHR '':'' # pad2 0 @ CHR '':'' # pad2 0) t = None"
  "strptime_match ''%d/%m/%Y'' (pad4 y @ CHR ''-'' # pad2 m @ CHR ''-'' # pad2 d @ CHR '' '' # pad2 0 @ CHR '':'' # pad2 0 @ CHR '':'' # pad2 0) t = None"
  "strptime_match ''%Y-%m-%d %H:%M:%S'' (pad4 y @ CHR ''-'' # pad2 m @ CHR ''-'' # pad2 d @ CHR '' '' # pad2 0 @ CHR '':'' # pad2 0 @ CHR '':'' # pad2 0) t
     = Some (t\<lparr>year := y, month := m, day := d, hour := 0, minute := 0, second := 0\<rparr>)"
  using v by (simp_all add: fl not_digit)



lemma valid_bounds:
  assumes "valid_datetime (mk_date y m d)"
  shows "1 \<le> y" "y < 10000" "1 \<le> m" "m \<le> 12" "1 \<le> d" "d \<le> 31" "d \<le> days_in_month y m"
  using assms days_in_month_bounds [of m y] by (auto simp: mk_date_def valid_datetime_def)

lemma valid_swap:
  assumes "valid_datetime (mk_date y m d)" "d \<le> 12"
  shows "valid_datetime (mk_date y d m)"
  using valid_bounds [OF assms(1)] assms(2) days_in_month_bounds [of d y]
  by (auto simp: mk_date_def valid_datetime_def)

lemmas asm = parse_date_def parse_date_with_def default_formats_def strptime_def
  strftime_directive_def

lemma str_nat_pad4:
  assumes "1000 \<le> y" "y < 10000"
  shows "str_nat y = pad4 y"
proof -
  define j where "j = y - 3"
  from assms have j: "y = Suc (Suc (Suc j))"
    by (simp add: j_def)
  have d: "y div 10 div 10 = y div 100" "y div 100 div 10 = y div 1000"
    by (simp_all add: div_mult2_eq [symmetric])
  from assms have c: "\<not> y < 10" "\<not> y div 10 < 10" "\<not> y div 100 < 10" "y div 1000 < 10"
    by simp_all
  have "str_nat_aux (Suc (Suc (Suc (Suc j)))) y = pad4 y"
    by (simp add: d c pad4_def)
  then show ?thesis
    unfolding str_nat_def using j by simp
qed

lemma str_nat_3:
  assumes "100 \<le> y" "y < 1000"
  shows "str_nat y = [digit_char (y div 100), digit_char (y div 10), digit_char y]"
proof -
  define j where "j = y - 2"
  from assms have j: "y = Suc (Suc j)"
    by (simp add: j_def)
  have d: "y div 10 div 10 = y div 100"
    by (simp add: div_mult2_eq [symmetric])
  from assms have c: "\<not> y < 10" "\<not> y div 10 < 10" "y div 100 < 10"
    by simp_all
  have "str_nat_aux (Suc (Suc (Suc j))) y = [digit_char (y div 100), digit_char (y div 10), digit_char y]"
    by (simp add: d c)
  then show ?thesis
    unfolding str_nat_def using j by simp
qed

lemma parse_R1:
  assumes a: "valid_datetime (mk_date y m d)" and y4: "1000 \<le> y"
  shows "parse_date (strftime (mk_date y m d) ''%Y-%m-%d'') = Some (mk_date y m d)"
proof -
  note v = valid_bounds [OF a]
  have r: "strftime (mk_date y m d) ''%Y-%m-%d'' = pad4 y @ CHR ''-'' # pad2 m @ CHR ''-'' # pad2 d"
    using v(2) y4 by (simp add: strftime_directive_def mk_date_def str_nat_pad4)
  have s: "strip (pad4 y @ CHR ''-'' # pad2 m @ CHR ''-'' # pad2 d) = pad4 y @ CHR ''-'' # pad2 m @ CHR ''-'' # pad2 d"
    using v by (intro strip_id2) (simp_all add: sp)
  show ?thesis
    unfolding r using a
    by (simp add: asm s R1 [OF v(1-6)] del: strptime_match.simps) (simp add: mk_date_def)
qed

lemma parse_R2:
  assumes a: "valid_datetime (mk_date y m d)" and y4: "1000 \<le> y"
  shows "parse_date (strftime (mk_date y m d) ''%B %d, %Y'') = Some (mk_date y m d)"
proof -
  note v = valid_bounds [OF a]
  have r: "strftime (mk_date y m d) ''%B %d, %Y''
      = Month_names ! (m - Suc 0) @ CHR '' '' # pad2 d @ CHR '','' # CHR '' '' # pad4 y"
    using v(2) y4 by (simp add: strftime_directive_def mk_date_def str_nat_pad4)
  have s: "strip (Month_names ! (m - Suc 0) @ CHR '' '' # pad2 d @ CHR '','' # CHR '' '' # pad4 y)
      = Month_names ! (m - Suc 0) @ CHR '' '' # pad2 d @ CHR '','' # CHR '' '' # pad4 y"
    using v by (intro strip_id2) (simp_all add: sp)
  show ?thesis
    unfolding r using a
    by (simp add: asm s R2 [OF v(1-6)] del: strptime_match.simps) (simp add: mk_date_def)
qed

lemma parse_R3:
  assumes a: "valid_datetime (mk_date y m d)" and y4: "1000 \<le> y"
  shows "parse_date (strftime (mk_date y m d) ''%b %d, %Y'') = Some (mk_date y m d)"
proof -
  note v = valid_bounds [OF a]
  have r: "strftime (mk_date y m d) ''%b %d, %Y''
      = Month_abbrs ! (m - Suc 0) @ CHR '' '' # pad2 d @ CHR '','' # CHR '' '' # pad4 y"
    using v(2) y4 by (simp add: strftime_directive_def mk_date_def str_nat_pad4)
  have s: "strip (Month_abbrs ! (m - Suc 0) @ CHR '' '' # pad2 d @ CHR '','' # CHR '' '' # pad4 y)
      = Month_abbrs ! (m - Suc 0) @ CHR '' '' # pad2 d @ CHR '','' # CHR '' '' # pad4 y"
    using v by (intro strip_id2) (simp_all add: sp)
  have alt: "strptime_match ''%B %d, %Y''
       (Month_abbrs ! (m - Suc 0) @ CHR '' '' # pad2 d @ CHR '','' # CHR '' '' # pad4 y) t = None
     \<or> strptime_match ''%B %d, %Y''
       (Month_abbrs ! (m - Suc 0) @ CHR '' '' # pad2 d @ CHR '','' # CHR '' '' # pad4 y) t
        = Some (t\<lparr>month := m, day := d, year := y\<rparr>)" for t
    unfolding R3(2) [OF v(1-6)] by (cases "m = 5") (simp_all only: if_True if_False simp_thms)
  show ?thesis
    unfolding r using a alt [of "\<lparr>year = 1900, month = Suc 0, day = Suc 0, hour = 0, minute = 0, second = 0\<rparr>"]
    by (elim disjE; simp add: asm s R3(1,3) [OF v(1-6)] del: strptime_match.simps)
       (simp_all add: mk_date_def)
qed

lemma parse_R4:
  assumes a: "valid_datetime (mk_date y m d)" and y4: "1000 \<le> y"
  shows "parse_date (strftime (mk_date y m d) ''%d %B %Y'') = Some (mk_date y m d)"
proof -
  note v = valid_bounds [OF a]
  have r: "strftime (mk_date y m d) ''%d %B %Y''
      = pad2 d @ CHR '' '' # Month_names ! (m - Suc 0) @ CHR '' '' # pad4 y"
    using v(2) y4 by (simp add: strftime_directive_def mk_date_def str_nat_pad4)
  have s: "strip (pad2 d @ CHR '' '' # Month_names ! (m - Suc 0) @ CHR '' '' # pad4 y)
      = pad2 d @ CHR '' '' # Month_names ! (m - Suc 0) @ CHR '' '' # pad4 y"
    using v by (intro strip_id2) (simp_all add: sp)
  show ?thesis
    unfolding r using a
    by (simp add: asm s R4 [OF v(1-6)] del: strptime_match.simps) (simp add: mk_date_def)
qed

lemma parse_R5:
  assumes a: "valid_datetime (mk_date y m d)" and y4: "1000 \<le> y"
  shows "parse_date (strftime (mk_date y m d) ''%d %b %Y'') = Some (mk_date y m d)"
proof -
  note v = valid_bounds [OF a]
  have r: "strftime (mk_date y m d) ''%d %b %Y''
      = pad2 d @ CHR '' '' # Month_abbrs ! (m - Suc 0) @ CHR '' '' # pad4 y"
    using v(2) y4 by (simp add: strftime_directive_def mk_date_def str_nat_pad4)
  have s: "strip (pad2 d @ CHR '' '' # Month_abbrs ! (m - Suc 0) @ CHR '' '' # pad4 y)
      = pad2 d @ CHR '' '' # Month_abbrs ! (m - Suc 0) @ CHR '' '' # pad4 y"
    using v by (intro strip_id2) (simp_all add: sp)
  have alt: "strptime_match ''%d %B %Y''
       (pad2 d @ CHR '' '' # Month_abbrs ! (m - Suc 0) @ CHR '' '' # pad4 y) t = None
     \<or> strptime_match ''%d %B %Y''
       (pad2 d @ CHR '' '' # Month_abbrs ! (m - Suc 0) @ CHR '' '' # pad4 y) t
        = Some (t\<lparr>day := d, month := m, year := y\<rparr>)" for t
    unfolding R5(4) [OF v(1-6)] by (cases "m = 5") (simp_all only: if_True if_False simp_thms)
  show ?thesis
    unfolding r using a alt [of "\<lparr>year = 1900, month = Suc 0, day = Suc 0, hour = 0, minute = 0, second = 0\<rparr>"]
    by (elim disjE; simp add: asm s R5(1,2,3,5) [OF v(1-6)] del: strptime_match.simps)
       (simp_all add: mk_date_def)
qed

lemma parse_R6:
  assumes a: "valid_datetime (mk_date y m d)" and y4: "1000 \<le> y"
  shows "parse_date (strftime (mk_date y m d) ''%m/%d/%Y'') = Some (mk_date y m d)"
proof -
  note v = valid_bounds [OF a]
  have r: "strftime (mk_date y m d) ''%m/%d/%Y''
      = pad2 m @ CHR ''/'' # pad2 d @ CHR ''/'' # pad4 y"
    using v(2) y4 by (simp add: strftime_directive_def mk_date_def str_nat_pad4)
  have s: "strip (pad2 m @ CHR ''/'' # pad2 d @ CHR ''/'' # pad4 y)
      = pad2 m @ CHR ''/'' # pad2 d @ CHR ''/'' # pad4 y"
    using v by (intro strip_id2) (simp_all add: sp)
  show ?thesis
    unfolding r using a
    by (simp add: asm s R6 [OF v(1-6)] del: strptime_match.simps) (simp add: mk_date_def)
qed

lemma parse_R7:
  assumes a: "valid_datetime (mk_date y m d)" and y4: "1000 \<le> y"
  shows "parse_date (strftime (mk_date y m d) ''%d/%m/%Y'')
     = Some (if d \<le> 12 then mk_date y d m else mk_date y m d)"
proof -
  note v = valid_bounds [OF a]
  have r: "strftime (mk_date y m d) ''%d/%m/%Y''
      = pad2 d @ CHR ''/'' # pad2 m @ CHR ''/'' # pad4 y"
    using v(2) y4 by (simp add: strftime_directive_def mk_date_def str_nat_pad4)
  have s: "strip (pad2 d @ CHR ''/'' # pad2 m @ CHR ''/'' # pad4 y)
      = pad2 d @ CHR ''/'' # pad2 m @ CHR ''/'' # pad4 y"
    using v by (intro strip_id2) (simp_all add: sp)
  show ?thesis
  proof (cases "d \<le> 12")
    case True
    from valid_swap [OF a True] True show ?thesis
      unfolding r
      by (simp add: asm s R7 [OF v(1-6)] R7_6 [OF v(1-6)] del: strptime_match.simps)
         (simp add: mk_date_def)
  next
    case False
    with a show ?thesis
      unfolding r
      by (simp add: asm s R7 [OF v(1-6)] R7_6 [OF v(1-6)] del: strptime_match.simps)
         (simp add: mk_date_def)
  qed
qed

lemma parse_R8:
  assumes a: "valid_datetime (mk_date y m d)" and y4: "1000 \<le> y"
  shows "parse_date (strftime (mk_date y m d) ''%Y-%m-%d %H:%M:%S'') = Some (mk_date y m d)"
proof -
  note v = valid_bounds [OF a]
  have r: "strftime (mk_date y m d) ''%Y-%m-%d %H:%M:%S''
      = pad4 y @ CHR ''-'' # pad2 m @ CHR ''-'' # pad2 d @ CHR '' '' # pad2 0 @ CHR '':'' # pad2 0 @ CHR '':'' # pad2 0"
    using v(2) y4 by (simp add: strftime_directive_def mk_date_def str_nat_pad4)
  have s: "strip (pad4 y @ CHR ''-'' # pad2 m @ CHR ''-'' # pad2 d @ CHR '' '' # pad2 0 @ CHR '':'' # pad2 0 @ CHR '':'' # pad2 0)
      = pad4 y @ CHR ''-'' # pad2 m @ CHR ''-'' # pad2 d @ CHR '' '' # pad2 0 @ CHR '':'' # pad2 0 @ CHR '':'' # pad2 0"
    using v by (intro strip_id2) (simp_all add: sp)
  show ?thesis
    unfolding r using a
    by (simp add: asm s R8 [OF v(1-6)] del: strptime_match.simps) (simp add: mk_date_def)
qed

text \<open>
  C3 (as amended). Rendering a calendar date of a year from 1000 on, which
  \<open>strftime\<close> writes with four digits, in one of the supported formats and parsing
  the string gives the same date back for every format except \<open>DD/MM/YYYY\<close>. A date
  rendered as \<open>DD/MM/YYYY\<close> comes back unchanged only when its day is above 12;
  otherwise \<open>MM/DD/YYYY\<close>, which is tried first, accepts the string and the result has
  day and month exchanged.
\<close>

theorem parse_date_roundtrip:
  assumes "valid_datetime (mk_date y m d)" and "1000 \<le> y" and "fmt \<in> set default_formats"
  shows "parse_date (strftime (mk_date y m d) fmt)
     = Some (if fmt = ''%d/%m/%Y'' \<and> d \<le> 12 then mk_date y d m else mk_date y m d)"
proof -
  from assms(3) have "fmt = ''%Y-%m-%d'' \<or> fmt = ''%B %d, %Y'' \<or> fmt = ''%b %d, %Y''
    \<or> fmt = ''%d %B %Y'' \<or> fmt = ''%d %b %Y'' \<or> fmt = ''%m/%d/%Y'' \<or> fmt = ''%d/%m/%Y''
    \<or> fmt = ''%Y-%m-%d %H:%M:%S''"
    unfolding default_formats_def by (simp only: set_simps insert_iff empty_iff simp_thms)
  then show ?thesis
  proof (elim disjE)
    assume f: "fmt = ''%Y-%m-%d''"
    show ?thesis unfolding f by (subst parse_R1 [OF assms(1,2)]) simp
  next
    assume f: "fmt = ''%B %d, %Y''"
    show ?thesis unfolding f by (subst parse_R2 [OF assms(1,2)]) simp
  next
    assume f: "fmt = ''%b %d, %Y''"
    show ?thesis unfolding f by (subst parse_R3 [OF assms(1,2)]) simp
  next
    assume f: "fmt = ''%d %B %Y''"
    show ?thesis unfolding f by (subst parse_R4 [OF assms(1,2)]) simp
  next
    assume f: "fmt = ''%d %b %Y''"
    show ?thesis unfolding f by (subst parse_R5 [OF assms(1,2)]) simp
  next
    assume f: "fmt = ''%m/%d/%Y''"
    show ?thesis unfolding f by (subst parse_R6 [OF assms(1,2)]) simp
  next
    assume f: "fmt = ''%d/%m/%Y''"
    show ?thesis unfolding f by (subst parse_R7 [OF assms(1,2)]) simp
  next
    assume f: "fmt = ''%Y-%m-%d %H:%M:%S''"
    show ?thesis unfolding f by (subst parse_R8 [OF assms(1,2)]) simp
  qed
qed

theorem parse_date_roundtrip_witness:
  "valid_datetime (mk_date 2024 1 5) \<and> (1000::nat) \<le> 2024
   \<and> ''%B %d, %Y'' \<in> set default_formats
   \<and> strftime (mk_date 2024 1 5) ''%B %d, %Y'' = ''January 05, 2024''
   \<and> parse_date ''January 05, 2024'' = Some (mk_date 2024 1 5)"
proof -
  have v: "valid_datetime (mk_date 2024 1 5)"
    by (simp add: valid_datetime_def mk_date_def days_in_month_def)
  have y: "(1000::nat) \<le> 2024"
    by simp
  have f: "''%B %d, %Y'' \<in> set default_formats"
    by (simp add: default_formats_def)
  have r: "strftime (mk_date 2024 1 5) ''%B %d, %Y'' = ''January 05, 2024''"
    by (simp add: strftime_directive_def mk_date_def Month_names_def pad2_def pad4_def
        digit_char_def str_nat_pad4)
  from parse_date_roundtrip [OF v y f] v f r show ?thesis by simp
qed

text \<open>
  The claim as stated fails for the first of February 2024 rendered day-first: the
  string \<open>01/02/2024\<close> parses as the second of January. It also fails for the years
  below 1000: the fifth of January 999 is rendered as \<open>999-01-05\<close>, which no format
  accepts.
\<close>

theorem parse_date_roundtrip_counterexample:
  "valid_datetime (mk_date 2024 2 1) \<and> ''%d/%m/%Y'' \<in> set default_formats
   \<and> strftime (mk_date 2024 2 1) ''%d/%m/%Y'' = ''01/02/2024''
   \<and> parse_date ''01/02/2024'' = Some (mk_date 2024 1 2)
   \<and> parse_date (strftime (mk_date 2024 2 1) ''%d/%m/%Y'') \<noteq> Some (mk_date 2024 2 1)
   \<and> valid_datetime (mk_date 999 1 5) \<and> ''%Y-%m-%d'' \<in> set default_formats
   \<and> strftime (mk_date 999 1 5) ''%Y-%m-%d'' = ''999-01-05''
   \<and> parse_date (strftime (mk_date 999 1 5) ''%Y-%m-%d'') = None"
proof -
  have v: "valid_datetime (mk_date 2024 2 1)"
    by (simp add: valid_datetime_def mk_date_def days_in_month_def is_leap_def)
  have f: "''%d/%m/%Y'' \<in> set default_formats"
    by (simp add: default_formats_def)
  have r: "strftime (mk_date 2024 2 1) ''%d/%m/%Y'' = ''01/02/2024''"
    by (simp add: strftime_directive_def mk_date_def pad2_def pad4_def digit_char_def
        str_nat_pad4)
  have p: "parse_date ''01/02/2024'' = Some (mk_date 2024 1 2)"
    by code_simp
  have n: "mk_date 2024 1 2 \<noteq> mk_date 2024 2 1"
    by (simp add: mk_date_def)
  have v': "valid_datetime (mk_date 999 1 5)"
    by (simp add: valid_datetime_def mk_date_def days_in_month_def)
  have f': "''%Y-%m-%d'' \<in> set default_formats"
    by (simp add: default_formats_def)
  have r': "strftime (mk_date 999 1 5) ''%Y-%m-%d'' = ''999-01-05''"
    by (simp add: strftime_directive_def mk_date_def pad2_def digit_char_def str_nat_3)
  have p': "Option.is_none (parse_date ''999-01-05'')"
    by code_simp
  from v f r p n v' f' r' p' show ?thesis by (simp add: Option.is_none_def)
qed

subsection \<open>The range test and the stop test\<close>

text \<open>
  C9. For bounds with \<open>start \<le> end\<close>, \<open>is_date_in_range\<close> accepts exactly the dates
  between the bounds in the order of datetimes, and it accepts both bounds.
\<close>

theorem is_date_in_range_iff:
  assumes "datetime_le start_date end_date"
  shows "(is_date_in_range d start_date end_date
           \<longleftrightarrow> datetime_key start_date \<le> datetime_key d \<and> datetime_key d \<le> datetime_key end_date)
         \<and> is_date_in_range start_date start_date end_date
         \<and> is_date_in_range end_date start_date end_date"
  using assms by (simp add: is_date_in_range_def datetime_le_def)

theorem is_date_in_range_iff_witness:
  "datetime_le (mk_date 2024 1 1) (mk_date 2024 6 1)
   \<and> is_date_in_range (mk_date 2024 1 1) (mk_date 2024 1 1) (mk_date 2024 6 1)
   \<and> is_date_in_range (mk_date 2024 6 1) (mk_date 2024 1 1) (mk_date 2024 6 1)
   \<and> is_date_in_range (mk_date 2024 3 15) (mk_date 2024 1 1) (mk_date 2024 6 1)
   \<and> \<not> is_date_in_range (mk_date 2024 6 2) (mk_date 2024 1 1) (mk_date 2024 6 1)
   \<and> \<not> is_date_in_range (mk_date 2023 12 31) (mk_date 2024 1 1) (mk_date 2024 6 1)"
proof -
  have le: "datetime_le (mk_date 2024 1 1) (mk_date 2024 6 1)"
    by (simp add: datetime_le_def datetime_key_def mk_date_def)
  have k: "datetime_key (mk_date y m d) = (y, m, d, 0, 0, 0)" for y m d
    by (simp add: datetime_key_def mk_date_def)
  from is_date_in_range_iff [OF le, of "mk_date 2024 3 15"]
       is_date_in_range_iff [OF le, of "mk_date 2024 6 2"]
       is_date_in_range_iff [OF le, of "mk_date 2023 12 31"] le
  show ?thesis by (simp add: k)
qed

text \<open>
  C10. A parsed date never both triggers the stop and lies in the range; so one
  record handled by the element loop, or by the pass over embedded JSON, is never both
  appended and the cause of the stop.
\<close>

theorem stop_excludes_in_range:
  "\<not> (should_stop_scraping (Some d) start_date \<and> is_date_in_range d start_date end_date)
   \<and> (snd (element_loop A start_date end_date [element] reviews)
        \<longrightarrow> fst (element_loop A start_date end_date [element] reviews) = reviews)
   \<and> (snd (json_pass start_date end_date [json_review] reviews)
        \<longrightarrow> fst (json_pass start_date end_date [json_review] reviews) = reviews)"
  by (auto simp: should_stop_scraping_def is_date_in_range_def datetime_lt_not_le Let_def
      split: option.splits)


theorem stop_excludes_in_range_witness:
  "snd (element_loop (TrustpilotScraper (\<lambda>s. []) (\<lambda>s u. None)) (mk_date 2024 1 1) (mk_date 2024 6 1)
          [old_element] [])
   \<and> fst (element_loop (TrustpilotScraper (\<lambda>s. []) (\<lambda>s u. None)) (mk_date 2024 1 1) (mk_date 2024 6 1)
          [old_element] []) = []"
proof -
  have "snd (element_loop (TrustpilotScraper (\<lambda>s. []) (\<lambda>s u. None)) (mk_date 2024 1 1)
          (mk_date 2024 6 1) [old_element] [])"
    by code_simp
  with stop_excludes_in_range [where start_date = "mk_date 2024 1 1"
      and end_date = "mk_date 2024 6 1" and element = old_element and reviews = "[]"
      and A = "TrustpilotScraper (\<lambda>s. []) (\<lambda>s u. None)"]
  show ?thesis by simp
qed


section \<open>Properties of the fallback and of parse\_review\<close>

lemma extract_reviews_from_json_empty: "extract_reviews_from_json E soup = []"
  by (simp add: extract_reviews_from_json_def parse_json_review_def List.map_filter_def)

lemma fallback_loop_length:
  "length reviews < 20 \<Longrightarrow> length (fallback_loop candidates reviews) \<le> 20"
  by (induction candidates arbitrary: reviews) (auto simp: Let_def)

lemma fallback_loop_set:
  "c \<in> set (fallback_loop candidates reviews) \<Longrightarrow>
   c \<in> set reviews \<or> (has_review_keywords c \<and> has_substantial_text c \<and> has_multiple_elements c)"
  by (induction candidates arbitrary: reviews) (force simp: Let_def split: if_splits)+

lemma has_multiple_elements_descendants:
  assumes "has_multiple_elements c"
  shows "2 \<le> length (filter (\<lambda>x. tag_name x \<in> {Some ''p'', Some ''div'', Some ''span''})
                        (descendants c))"
proof -
  have eq: "(\<lambda>x. (case tag_name x of None \<Rightarrow> False | Some n \<Rightarrow> n \<in> set [''p'', ''div'', ''span''])
                  \<and> any_tag x)
            = (\<lambda>x. tag_name x \<in> {Some ''p'', Some ''div'', Some ''span''})"
    by (rule ext) (auto simp: any_tag_def split: option.splits)
  from assms show ?thesis
    unfolding has_multiple_elements_def find_all_def Let_def eq by simp
qed

text \<open>
  C6 (as amended). On a page where the adapter finds no element, the pass of the loop
  over that page runs on the elements of the fallback: it breaks when there are none
  and parses each of them otherwise. The fallback returns at most 20 elements; each
  contains one of the keywords (in any letter case), has more than 100 characters of
  stripped text, and has at least two tags named \<open>p\<close>, \<open>div\<close> or \<open>span\<close> somewhere
  below it.
\<close>

theorem fallback_extract_reviews_props:
  "length (fallback_extract_reviews soup) \<le> 20
   \<and> (\<forall>c \<in> set (fallback_extract_reviews soup).
          (\<exists>kw \<in> set [''review'', ''rating'', ''star'', ''reviewed'', ''feedback''].
              contains kw (lower (get_text c)))
          \<and> length (get_text_strip c) > 100
          \<and> 2 \<le> length (filter (\<lambda>x. tag_name x \<in> {Some ''p'', Some ''div'', Some ''span''})
                              (descendants c)))
   \<and> (get_review_elements A soup = [] \<longrightarrow>
         page_elements A E soup = fallback_extract_reviews soup
         \<and> scrape_page A E start_date end_date soup reviews =
             (if fallback_extract_reviews soup = [] then Break reviews
              else (case element_loop A start_date end_date (fallback_extract_reviews soup) reviews of
                      (reviews2, page_stopped_early) \<Rightarrow>
                        if page_stopped_early then Break reviews2 else Continue reviews2)))"
proof (intro conjI ballI impI)
  show "length (fallback_extract_reviews soup) \<le> 20"
    unfolding fallback_extract_reviews_def by (rule fallback_loop_length) simp
next
  fix c assume "c \<in> set (fallback_extract_reviews soup)"
  then have c: "has_review_keywords c" "has_substantial_text c" "has_multiple_elements c"
    unfolding fallback_extract_reviews_def by (auto dest: fallback_loop_set)
  from c(1) show "\<exists>kw \<in> set [''review'', ''rating'', ''star'', ''reviewed'', ''feedback''].
      contains kw (lower (get_text c))"
    unfolding has_review_keywords_def list_ex_iff .
  from c(2) show "length (get_text_strip c) > 100"
    by (simp add: has_substantial_text_def)
  from c(3) show "2 \<le> length (filter (\<lambda>x. tag_name x \<in> {Some ''p'', Some ''div'', Some ''span''})
      (descendants c))"
    by (rule has_multiple_elements_descendants)
next
  assume "get_review_elements A soup = []"
  then show "page_elements A E soup = fallback_extract_reviews soup"
    by (simp add: page_elements_def extract_reviews_from_json_empty)
next
  assume "get_review_elements A soup = []"
  then show "scrape_page A E start_date end_date soup reviews =
      (if fallback_extract_reviews soup = [] then Break reviews
       else (case element_loop A start_date end_date (fallback_extract_reviews soup) reviews of
               (reviews2, page_stopped_early) \<Rightarrow>
                 if page_stopped_early then Break reviews2 else Continue reviews2))"
    by (simp add: scrape_page_def page_elements_def extract_reviews_from_json_empty)
qed

lemma fallback_nested: "fallback_extract_reviews nested_doc = [nested_outer]"
  by code_simp

lemma fallback_script: "fallback_extract_reviews script_doc = []"
  by code_simp

lemma element_loop_nested:
  "element_loop (G2Scraper (\<lambda>s. []) (\<lambda>s u. None)) (mk_date 2024 1 1) (mk_date 2024 6 1)
     [nested_outer] [] = ([], False)"
  by code_simp

theorem fallback_extract_reviews_props_witness:
  "get_review_elements (G2Scraper (\<lambda>s. []) (\<lambda>s u. None)) nested_doc = []
   \<and> page_elements (G2Scraper (\<lambda>s. []) (\<lambda>s u. None)) endless nested_doc = [nested_outer]
   \<and> scrape_page (G2Scraper (\<lambda>s. []) (\<lambda>s u. None)) endless (mk_date 2024 1 1) (mk_date 2024 6 1)
        nested_doc [] = Continue []
   \<and> contains ''review'' (lower (get_text nested_outer))
   \<and> length (get_text_strip nested_outer) > 100
   \<and> get_review_elements (G2Scraper (\<lambda>s. []) (\<lambda>s u. None)) script_doc = []
   \<and> scrape_page (G2Scraper (\<lambda>s. []) (\<lambda>s u. None)) endless (mk_date 2024 1 1) (mk_date 2024 6 1)
        script_doc [] = Break []"
proof -
  have e: "get_review_elements (G2Scraper (\<lambda>s. []) (\<lambda>s u. None)) nested_doc = []"
    "get_review_elements (G2Scraper (\<lambda>s. []) (\<lambda>s u. None)) script_doc = []"
    by (simp_all add: G2Scraper_def)
  have k: "contains ''review'' (lower (get_text nested_outer))"
    by code_simp
  note n = fallback_extract_reviews_props [where soup = nested_doc
         and A = "G2Scraper (\<lambda>s. []) (\<lambda>s u. None)" and E = endless
         and start_date = "mk_date 2024 1 1" and end_date = "mk_date 2024 6 1" and reviews = "[]"]
  note s = fallback_extract_reviews_props [where soup = script_doc
         and A = "G2Scraper (\<lambda>s. []) (\<lambda>s u. None)" and E = endless
         and start_date = "mk_date 2024 1 1" and end_date = "mk_date 2024 6 1" and reviews = "[]"]
  from n e(1) have p: "page_elements (G2Scraper (\<lambda>s. []) (\<lambda>s u. None)) endless nested_doc
      = [nested_outer]"
    unfolding fallback_nested by blast
  from n e(1) have "scrape_page (G2Scraper (\<lambda>s. []) (\<lambda>s u. None)) endless (mk_date 2024 1 1)
        (mk_date 2024 6 1) nested_doc []
      = (if [nested_outer] = [] then Break []
         else (case ([], False) of
                 (reviews2, page_stopped_early) \<Rightarrow>
                   if page_stopped_early then Break reviews2 else Continue reviews2))"
    unfolding fallback_nested element_loop_nested by blast
  then have c: "scrape_page (G2Scraper (\<lambda>s. []) (\<lambda>s u. None)) endless (mk_date 2024 1 1)
        (mk_date 2024 6 1) nested_doc [] = Continue []"
    by simp
  from n have l: "length (get_text_strip nested_outer) > 100"
    unfolding fallback_nested by simp
  from s e(2) have b: "scrape_page (G2Scraper (\<lambda>s. []) (\<lambda>s u. None)) endless (mk_date 2024 1 1)
        (mk_date 2024 6 1) script_doc [] = Break []"
    unfolding fallback_script by simp
  from e p c k l b show ?thesis by blast
qed

text \<open>
  The claim as stated asks for two child elements. The element returned for
  \<open>nested_doc\<close> has one child: the second tag the count finds is its grandchild.
\<close>

theorem fallback_child_elements_counterexample:
  "fallback_extract_reviews nested_doc = [nested_outer]
   \<and> length (child_elements nested_outer) = 1
   \<and> \<not> 2 \<le> length (child_elements nested_outer)"
  by code_simp

text \<open>
  C5. Whatever the element, a record returned by \<open>parse_review\<close> of any of the three
  adapters has a non-empty title or a non-empty review text.
\<close>

theorem parse_review_nonempty:
  "(g2_parse_review e = Some r \<longrightarrow> title r \<noteq> [] \<or> review_text r \<noteq> [])
   \<and> (capterra_parse_review e = Some r \<longrightarrow> title r \<noteq> [] \<or> review_text r \<noteq> [])
   \<and> (trustpilot_parse_review e = Some r \<longrightarrow> title r \<noteq> [] \<or> review_text r \<noteq> [])
   \<and> (A \<in> {G2Scraper el nx, CapterraScraper el nx, TrustpilotScraper el nx}
        \<longrightarrow> parse_review A e = Some r \<longrightarrow> title r \<noteq> [] \<or> review_text r \<noteq> [])"
proof -
  have g: "g2_parse_review e = Some r \<Longrightarrow> title r \<noteq> [] \<or> review_text r \<noteq> []" for e r
    unfolding g2_parse_review_def Let_def by (auto split: if_splits)
  have c: "capterra_parse_review e = Some r \<Longrightarrow> title r \<noteq> [] \<or> review_text r \<noteq> []" for e r
    unfolding capterra_parse_review_def Let_def by (auto split: if_splits)
  have t: "trustpilot_parse_review e = Some r \<Longrightarrow> title r \<noteq> [] \<or> review_text r \<noteq> []" for e r
    unfolding trustpilot_parse_review_def Let_def by (auto split: if_splits)
  show ?thesis
    using g [of e r] c [of e r] t [of e r]
    by (auto simp: G2Scraper_def CapterraScraper_def TrustpilotScraper_def)
qed

theorem parse_review_nonempty_witness:
  "(\<exists>r. g2_parse_review good_element = Some r \<and> (title r \<noteq> [] \<or> review_text r \<noteq> []))
   \<and> (\<exists>r. capterra_parse_review good_element = Some r \<and> (title r \<noteq> [] \<or> review_text r \<noteq> []))
   \<and> (\<exists>r. trustpilot_parse_review good_element = Some r \<and> (title r \<noteq> [] \<or> review_text r \<noteq> []))
   \<and> g2_parse_review (Tag ''div'' [] [Text NavigableString ''short'']) = None"
proof -
  have "\<not> Option.is_none (g2_parse_review good_element)" by code_simp
  then obtain r1 where r1: "g2_parse_review good_element = Some r1"
    by (auto simp: Option.is_none_def)
  have "\<not> Option.is_none (capterra_parse_review good_element)" by code_simp
  then obtain r2 where r2: "capterra_parse_review good_element = Some r2"
    by (auto simp: Option.is_none_def)
  have "\<not> Option.is_none (trustpilot_parse_review good_element)" by code_simp
  then obtain r3 where r3: "trustpilot_parse_review good_element = Some r3"
    by (auto simp: Option.is_none_def)
  have n: "Option.is_none (g2_parse_review (Tag ''div'' [] [Text NavigableString ''short'']))" by code_simp
  from parse_review_nonempty [of good_element r1] parse_review_nonempty [of good_element r2]
       parse_review_nonempty [of good_element r3] r1 r2 r3 n
  show ?thesis by (simp add: Option.is_none_def)
qed


section \<open>Properties of fetch\_with\_retry\<close>

text \<open>
  C7. With the defaults (three attempts) \<open>fetch_with_retry\<close> sends at most three
  requests; it returns the first response that arrives; after the failed attempt
  number \<open>k\<close> that is not the last it sleeps \<open>delay * k\<close>; when all three attempts
  fail with a request exception it returns \<open>None\<close> and raises nothing.
\<close>

theorem fetch_with_retry_three:
  "requests_sent (snd (fetch_with_retry net 3 delay)) \<le> 3
   \<and> (net 0 = Response r \<longrightarrow>
        fetch_with_retry net 3 delay = (Inr (Some r), [Request 0]))
   \<and> (net 0 = RequestException \<and> net 1 = Response r \<longrightarrow>
        fetch_with_retry net 3 delay = (Inr (Some r), [Request 0, Sleep (delay * 1), Request 1]))
   \<and> (net 0 = RequestException \<and> net 1 = RequestException \<and> net 2 = Response r \<longrightarrow>
        fetch_with_retry net 3 delay
          = (Inr (Some r), [Request 0, Sleep (delay * 1), Request 1, Sleep (delay * 2), Request 2]))
   \<and> (net 0 = RequestException \<and> net 1 = RequestException \<and> net 2 = RequestException \<longrightarrow>
        fetch_with_retry net 3 delay
          = (Inr None, [Request 0, Sleep (delay * 1), Request 1, Sleep (delay * 2), Request 2]))"
proof -
  have u: "[0..(3::int) - 1] = [0, 1, 2]"
    by (simp add: upto.simps)
  show ?thesis
    unfolding fetch_with_retry_def u
    by (cases "net 0"; cases "net 1"; cases "net 2")
       (simp_all add: requests_sent_def numeral_2_eq_2)
qed

theorem fetch_with_retry_three_witness:
  "fetch_default (\<lambda>i. if i = 2 then Response ''page'' else RequestException)
     = (Inr (Some ''page''), [Request 0, Sleep 1, Request 1, Sleep 2, Request 2])
   \<and> fetch_default (\<lambda>i. RequestException :: string attempt)
     = (Inr None, [Request 0, Sleep 1, Request 1, Sleep 2, Request 2])
   \<and> fetch_default (\<lambda>i. Response ''page'') = (Inr (Some ''page''), [Request 0])"
  using fetch_with_retry_three [of "\<lambda>i. if i = 2 then Response ''page'' else RequestException" 1 "''page''"]
        fetch_with_retry_three [of "\<lambda>i. RequestException :: string attempt" 1 "''page''"]
        fetch_with_retry_three [of "\<lambda>i. Response ''page''" 1 "''page''"]
  by (simp add: fetch_default_def)


section \<open>Properties of the scrape loop\<close>

lemma element_loop_too_old:
  assumes "List.map_filter (parse_review A) es = r # rs" "too_old s r"
  shows "element_loop A s e es revs = (revs, True)"
  using assms
proof (induction es)
  case Nil
  then show ?case by (simp add: List.map_filter_def)
next
  case (Cons x es)
  show ?case
  proof (cases "parse_review A x")
    case None
    with Cons show ?thesis by (simp add: List.map_filter_def)
  next
    case (Some r')
    with Cons.prems have "r' = r" by (simp add: List.map_filter_def)
    with Some Cons.prems(2) show ?thesis
      by (auto simp: too_old_def should_stop_scraping_def Let_def split: option.splits)
  qed
qed

lemma scrape_page_too_old:
  assumes "first_record A E soup = Some r" "too_old s r"
  shows "scrape_page A E s e soup revs = Break revs"
proof -
  from assms(1) obtain rs where m: "List.map_filter (parse_review A) (page_elements A E soup) = r # rs"
    by (auto simp: first_record_def split: list.splits)
  then have ne: "page_elements A E soup \<noteq> []"
    by (auto simp: List.map_filter_def)
  show ?thesis
    using ne element_loop_too_old [OF m assms(2), of e revs]
    by (simp add: scrape_page_def extract_reviews_from_json_empty Let_def)
qed

lemma log_simps [simp]:
  "pl_soup (log_page n u s b a) = s" "pl_before (log_page n u s b a) = b"
  "pl_after (log_page n u s b a) = a" "pl_page (log_page n u s b a) = n"
  "pl_url (log_page n u s b a) = u"
  by (simp_all add: log_page_def)

lemma too_old_page:
  assumes "first_record_too_old A E s (log_page n u (Some soup) b a)"
  shows "scrape_page A E s e soup revs = Break revs"
  using assms scrape_page_too_old [of A E soup _ s e revs]
  by (auto simp: first_record_too_old_def split: option.splits)

lemmas scrape_loop_simps = scrape_loop.simps
declare scrape_loop.simps [simp del]

text \<open>The log is the history of \<open>self.reviews\<close>.\<close>

lemma scrape_loop_log:
  "(pages (scrape_loop A E s e url p revs) = [] \<longrightarrow>
      final_reviews (scrape_loop A E s e url p revs) = revs)
   \<and> (pages (scrape_loop A E s e url p revs) \<noteq> [] \<longrightarrow>
      pl_before (hd (pages (scrape_loop A E s e url p revs))) = revs
      \<and> pl_page (hd (pages (scrape_loop A E s e url p revs))) = p
      \<and> final_reviews (scrape_loop A E s e url p revs)
          = pl_after (last (pages (scrape_loop A E s e url p revs))))
   \<and> (\<forall>k. Suc k < length (pages (scrape_loop A E s e url p revs)) \<longrightarrow>
        pl_before (pages (scrape_loop A E s e url p revs) ! Suc k)
          = pl_after (pages (scrape_loop A E s e url p revs) ! k)
        \<and> pl_page (pages (scrape_loop A E s e url p revs) ! Suc k)
          = Suc (pl_page (pages (scrape_loop A E s e url p revs) ! k)))"
proof (induction A E s e url p revs rule: scrape_loop.induct)
  case (1 A E s e url p revs)
  show ?case
  proof (cases url)
    case None
    then show ?thesis by (simp add: scrape_loop_simps)
  next
    case (Some u)
    show ?thesis
    proof (cases "u = []")
      case True
      with Some show ?thesis by (simp add: scrape_loop_simps)
    next
      case False
      show ?thesis
      proof (cases "get_soup E p u")
        case None
        with Some False show ?thesis by (simp add: scrape_loop_simps stop_run_def)
      next
        case soup: (Some soup)
        show ?thesis
        proof (cases "scrape_page A E s e soup revs")
          case (Return r)
          with Some False soup show ?thesis by (simp add: scrape_loop_simps stop_run_def)
        next
          case (Break r)
          with Some False soup show ?thesis by (simp add: scrape_loop_simps stop_run_def)
        next
          case (Continue r)
          show ?thesis
          proof (cases "p + 1 > 100")
            case True
            with Some False soup Continue show ?thesis
              by (simp add: scrape_loop_simps stop_run_def)
          next
            case F: False
            let ?rest = "scrape_loop A E s e (get_next_page_url A soup u) (p + 1) r"
            have eq: "scrape_loop A E s e url p revs
                = ?rest\<lparr>pages := log_page p u (Some soup) revs r # pages ?rest\<rparr>"
              using Some False soup Continue F
              by (subst scrape_loop_simps) (simp add: Let_def)
            note IH = "1.IH" [OF Some False soup Continue F]
            show ?thesis
              unfolding eq using IH
              by (cases "pages ?rest") (auto simp: nth_Cons' hd_conv_nth)
          qed
        qed
      qed
    qed
  qed
qed

lemma scrape_loop_cases [case_names Empty Failed Stop Step]:
  obtains
    (Empty) "url = None \<or> url = Some []"
      "scrape_loop A E s e url p revs
         = \<lparr>final_reviews = revs, returned_early = False, pages = []\<rparr>"
  | (Failed) u where "url = Some u" "u \<noteq> []" "get_soup E p u = None"
      "scrape_loop A E s e url p revs = stop_run revs False (log_page p u None revs revs)"
  | (Stop) u soup r ret where "url = Some u" "u \<noteq> []" "get_soup E p u = Some soup"
      "scrape_loop A E s e url p revs = stop_run r ret (log_page p u (Some soup) revs r)"
      "scrape_page A E s e soup revs = Return r \<or> scrape_page A E s e soup revs = Break r
       \<or> (scrape_page A E s e soup revs = Continue r \<and> p + 1 > 100)"
  | (Step) u soup r where "url = Some u" "u \<noteq> []" "get_soup E p u = Some soup"
      "scrape_page A E s e soup revs = Continue r" "\<not> p + 1 > 100"
      "scrape_loop A E s e url p revs
         = (scrape_loop A E s e (get_next_page_url A soup u) (p + 1) r)
             \<lparr>pages := log_page p u (Some soup) revs r
                        # pages (scrape_loop A E s e (get_next_page_url A soup u) (p + 1) r)\<rparr>"
proof (cases url)
  case None
  then show ?thesis using Empty by (simp add: scrape_loop_simps)
next
  case (Some u)
  show ?thesis
  proof (cases "u = []")
    case True
    with Some show ?thesis using Empty by (simp add: scrape_loop_simps)
  next
    case False
    show ?thesis
    proof (cases "get_soup E p u")
      case None
      with Some False show ?thesis using Failed by (simp add: scrape_loop_simps)
    next
      case soup: (Some soup)
      show ?thesis
      proof (cases "scrape_page A E s e soup revs")
        case (Return r)
        with Some False soup show ?thesis using Stop [of u soup r True]
          by (simp add: scrape_loop_simps)
      next
        case (Break r)
        with Some False soup show ?thesis using Stop [of u soup r False]
          by (simp add: scrape_loop_simps)
      next
        case (Continue r)
        show ?thesis
        proof (cases "p + 1 > 100")
          case True
          with Some False soup Continue show ?thesis using Stop [of u soup r False]
            by (simp add: scrape_loop_simps)
        next
          case F: False
          have "scrape_loop A E s e url p revs
              = (scrape_loop A E s e (get_next_page_url A soup u) (p + 1) r)
                  \<lparr>pages := log_page p u (Some soup) revs r
                     # pages (scrape_loop A E s e (get_next_page_url A soup u) (p + 1) r)\<rparr>"
            using Some False soup Continue F
            by (subst scrape_loop_simps) (simp add: Let_def)
          then show ?thesis using Step [OF Some False soup Continue F] by blast
        qed
      qed
    qed
  qed
qed

text \<open>
  C1. In the log of any run of the loop, a page whose first record is too old is
  the last page of the run, nothing is appended on it, and the reviews at the end of
  the run are those held before that page.
\<close>

theorem scrape_loop_stops_at_old_page:
  "\<forall>k < length (pages (scrape_loop A E s e url p revs)).
     first_record_too_old A E s (pages (scrape_loop A E s e url p revs) ! k) \<longrightarrow>
       Suc k = length (pages (scrape_loop A E s e url p revs))
       \<and> pl_after (pages (scrape_loop A E s e url p revs) ! k)
           = pl_before (pages (scrape_loop A E s e url p revs) ! k)
       \<and> final_reviews (scrape_loop A E s e url p revs)
           = pl_before (pages (scrape_loop A E s e url p revs) ! k)"
proof (induction A E s e url p revs rule: scrape_loop.induct)
  case (1 A E s e url p revs)
  show ?case
  proof (cases rule: scrape_loop_cases [where A = A and E = E and s = s and e = e and url = url and p = p and revs = revs])
    case Empty
    then show ?thesis by simp
  next
    case (Failed u)
    then show ?thesis by (simp add: stop_run_def first_record_too_old_def)
  next
    case (Stop u soup r ret)
    show ?thesis
      unfolding Stop(4) using Stop(5) too_old_page [of A E s p u soup revs r e revs]
      by (auto simp: stop_run_def)
  next
    case (Step u soup r)
    let ?rest = "scrape_loop A E s e (get_next_page_url A soup u) (p + 1) r"
    note IH = "1.IH" [OF Step(1-5)]
    have n0: "\<not> first_record_too_old A E s (log_page p u (Some soup) revs r)"
      using too_old_page [of A E s p u soup revs r e revs] Step(4) by auto
    show ?thesis
      unfolding Step(6)
    proof (intro allI impI)
      fix k
      assume k: "k < length (pages (?rest\<lparr>pages := log_page p u (Some soup) revs r # pages ?rest\<rparr>))"
        and old: "first_record_too_old A E s
          (pages (?rest\<lparr>pages := log_page p u (Some soup) revs r # pages ?rest\<rparr>) ! k)"
      from old n0 obtain j where j: "k = Suc j" by (cases k) auto
      with k old have "j < length (pages ?rest)" "first_record_too_old A E s (pages ?rest ! j)"
        by simp_all
      with IH have f: "Suc j = length (pages ?rest)"
        "pl_after (pages ?rest ! j) = pl_before (pages ?rest ! j)"
        "final_reviews ?rest = pl_before (pages ?rest ! j)"
        by blast+
      from j f(1) [symmetric] f(2,3) show "Suc k = length (pages (?rest\<lparr>pages := log_page p u (Some soup) revs r # pages ?rest\<rparr>))
        \<and> pl_after (pages (?rest\<lparr>pages := log_page p u (Some soup) revs r # pages ?rest\<rparr>) ! k)
            = pl_before (pages (?rest\<lparr>pages := log_page p u (Some soup) revs r # pages ?rest\<rparr>) ! k)
        \<and> final_reviews (?rest\<lparr>pages := log_page p u (Some soup) revs r # pages ?rest\<rparr>)
            = pl_before (pages (?rest\<lparr>pages := log_page p u (Some soup) revs r # pages ?rest\<rparr>) ! k)"
        by simp
    qed
  qed
qed

lemma scrape_loop_bound:
  "length (pages (scrape_loop A E s e url p revs)) \<le> max 1 (101 - p)"
proof (induction A E s e url p revs rule: scrape_loop.induct)
  case (1 A E s e url p revs)
  show ?case
  proof (cases rule: scrape_loop_cases [where A = A and E = E and s = s and e = e and url = url and p = p and revs = revs])
    case Empty
    then show ?thesis by simp
  next
    case (Failed u)
    then show ?thesis by (simp add: stop_run_def)
  next
    case (Stop u soup r ret)
    then show ?thesis by (simp add: stop_run_def)
  next
    case (Step u soup r)
    note IH = "1.IH" [OF Step(1-5)]
    show ?thesis
      unfolding Step(6) using IH Step(5) by auto
  qed
qed

lemma scrape_loop_endless:
  "\<forall>n u. get_soup E n u \<noteq> None \<Longrightarrow>
   \<forall>soup revs. \<exists>r. scrape_page A E s e soup revs = Continue r \<Longrightarrow>
   \<forall>soup u. \<exists>u'. get_next_page_url A soup u = Some u' \<and> u' \<noteq> [] \<Longrightarrow>
   url = Some u0 \<Longrightarrow> u0 \<noteq> [] \<Longrightarrow> p \<le> 100 \<Longrightarrow>
    length (pages (scrape_loop A E s e url p revs)) = 101 - p"
proof (induction A E s e url p revs arbitrary: u0 rule: scrape_loop.induct)
  case (1 A E s e url p revs)
  show ?case
  proof (cases rule: scrape_loop_cases [where A = A and E = E and s = s and e = e and url = url and p = p and revs = revs])
    case Empty
    with "1.prems"(4,5) show ?thesis by auto
  next
    case (Failed u)
    with "1.prems"(1) [rule_format, of p u] show ?thesis by simp
  next
    case (Stop u soup r ret)
    from "1.prems"(2) [rule_format, of soup revs] Stop(5) "1.prems"(6)
    have "p = 100" by auto
    with Stop(4) show ?thesis by (simp add: stop_run_def)
  next
    case (Step u soup r)
    from "1.prems"(3) [rule_format, of soup u] obtain u' where
      u': "get_next_page_url A soup u = Some u'" "u' \<noteq> []" by auto
    from Step(5) have p: "p + 1 \<le> 100" by simp
    note IH = "1.IH" [OF Step(1-5) "1.prems"(1-3) u' p]
    show ?thesis
      unfolding Step(6) using IH Step(5) by simp
  qed
qed

theorem scrape_loop_stops_at_old_page_witness:
  "length (pages (scrape_loop (TrustpilotScraper articles same_url) two_pages
                    (mk_date 2024 1 1) (mk_date 2024 6 1) (Some ''u'') 1 [])) = 2
   \<and> first_record_too_old (TrustpilotScraper articles same_url) two_pages (mk_date 2024 1 1)
        (pages (scrape_loop (TrustpilotScraper articles same_url) two_pages
                    (mk_date 2024 1 1) (mk_date 2024 6 1) (Some ''u'') 1 []) ! 1)
   \<and> length (final_reviews (scrape_loop (TrustpilotScraper articles same_url) two_pages
                    (mk_date 2024 1 1) (mk_date 2024 6 1) (Some ''u'') 1 [])) = 1
   \<and> final_reviews (scrape_loop (TrustpilotScraper articles same_url) two_pages
                    (mk_date 2024 1 1) (mk_date 2024 6 1) (Some ''u'') 1 [])
      = pl_before (pages (scrape_loop (TrustpilotScraper articles same_url) two_pages
                    (mk_date 2024 1 1) (mk_date 2024 6 1) (Some ''u'') 1 []) ! 1)"
proof -
  let ?R = "scrape_loop (TrustpilotScraper articles same_url) two_pages
              (mk_date 2024 1 1) (mk_date 2024 6 1) (Some ''u'') 1 []"
  have l: "length (pages ?R) = 2" by code_simp
  have o: "first_record_too_old (TrustpilotScraper articles same_url) two_pages (mk_date 2024 1 1)
             (pages ?R ! 1)" by code_simp
  have n: "length (pl_before (pages ?R ! 1)) = 1" by code_simp
  from scrape_loop_stops_at_old_page [rule_format, of 1 "TrustpilotScraper articles same_url"
      two_pages "mk_date 2024 1 1" "mk_date 2024 6 1" "Some ''u''" 1 "[]"] l o n
  show ?thesis by simp
qed

text \<open>
  C4. The loop is a total function, and a run that starts at page 1 fetches at most
  100 pages, whatever the adapter and the site do. When every fetch succeeds, every
  page yields reviews without a stop and every page names a next URL, the run
  fetches exactly 100 pages and ends.
\<close>

theorem scrape_loop_page_cap:
  "length (pages (scrape_loop A E s e url 1 revs)) \<le> 100
   \<and> ((\<forall>n u. get_soup E n u \<noteq> None)
        \<and> (\<forall>soup revs. \<exists>r. scrape_page A E s e soup revs = Continue r)
        \<and> (\<forall>soup u. \<exists>u'. get_next_page_url A soup u = Some u' \<and> u' \<noteq> [])
        \<and> u0 \<noteq> []
      \<longrightarrow> length (pages (scrape_loop A E s e (Some u0) 1 revs)) = 100)"
  using scrape_loop_bound [of A E s e url 1 revs]
        scrape_loop_endless [of E A s e "Some u0" u0 1 revs]
  by auto

theorem scrape_loop_page_cap_witness:
  "(\<forall>n u. get_soup endless n u \<noteq> None)
   \<and> (\<forall>soup u. \<exists>u'. get_next_page_url (TrustpilotScraper one_good next_link) soup u = Some u'
          \<and> u' \<noteq> [])
   \<and> length (pages (scrape_loop (TrustpilotScraper one_good next_link) endless
                (mk_date 2024 1 1) (mk_date 2024 6 1) (Some ''u'') 1 [])) = 100"
proof -
  let ?A = "TrustpilotScraper one_good next_link"
  have a: "\<forall>n u. get_soup endless n u \<noteq> None"
    by (simp add: endless_def)
  have "map_option review_date (trustpilot_parse_review good_element) = Some ''2024-03-05''"
    by code_simp
  then obtain r where r: "trustpilot_parse_review good_element = Some r"
    "review_date r = ''2024-03-05''" by auto
  have d: "parse_date ''2024-03-05'' = Some (mk_date 2024 3 5)"
    by code_simp
  have i: "is_date_in_range (mk_date 2024 3 5) (mk_date 2024 1 1) (mk_date 2024 6 1)"
    "\<not> datetime_lt (mk_date 2024 3 5) (mk_date 2024 1 1)"
    by (simp_all add: is_date_in_range_def datetime_le_def datetime_lt_def datetime_key_def
        mk_date_def)
  have b: "\<forall>soup revs. \<exists>x. scrape_page ?A endless (mk_date 2024 1 1) (mk_date 2024 6 1) soup revs
      = Continue x"
    using r d i
    by (simp add: scrape_page_def extract_reviews_from_json_empty page_elements_def
        TrustpilotScraper_def one_good_def should_stop_scraping_def Let_def)
  have c: "\<forall>soup u. \<exists>u'. get_next_page_url ?A soup u = Some u' \<and> u' \<noteq> []"
    by (simp add: TrustpilotScraper_def next_link_def)
  from scrape_loop_page_cap [of ?A endless "mk_date 2024 1 1" "mk_date 2024 6 1" "Some ''u''" "[]" "''u''"]
    a b c
  show ?thesis by simp
qed


section \<open>Properties of the sample data\<close>

lemma scrape_page_not_return: "scrape_page A E s e soup revs \<noteq> Return r"
  by (simp add: scrape_page_def extract_reviews_from_json_empty Let_def split: prod.splits)

text \<open>No adapter reads reviews from embedded JSON, so the loop never ends in \<open>return\<close>.\<close>

lemma scrape_loop_not_returned: "returned_early (scrape_loop A E s e url p revs) = False"
proof (induction A E s e url p revs rule: scrape_loop.induct)
  case (1 A E s e url p revs)
  show ?case
  proof (cases url)
    case None
    then show ?thesis by (simp add: scrape_loop_simps)
  next
    case (Some u)
    show ?thesis
    proof (cases "u = []")
      case True
      with Some show ?thesis by (simp add: scrape_loop_simps)
    next
      case False
      show ?thesis
      proof (cases "get_soup E p u")
        case None
        with Some False show ?thesis by (simp add: scrape_loop_simps stop_run_def)
      next
        case soup: (Some soup)
        show ?thesis
        proof (cases "scrape_page A E s e soup revs")
          case (Return r)
          with scrape_page_not_return show ?thesis by blast
        next
          case (Break r)
          with Some False soup show ?thesis by (simp add: scrape_loop_simps stop_run_def)
        next
          case (Continue r)
          show ?thesis
          proof (cases "p + 1 > 100")
            case True
            with Some False soup Continue show ?thesis
              by (simp add: scrape_loop_simps stop_run_def)
          next
            case F: False
            from "1.IH" [OF Some False soup Continue F] Some False soup Continue F
            show ?thesis by (subst scrape_loop_simps) (simp add: Let_def)
          qed
        qed
      qed
    qed
  qed
qed

lemma delta_scenario: "delta_days (mk_date 2024 6 1) (mk_date 2024 1 1) = 152"
  by (simp add: delta_days_def seconds_of_def to_ordinal_def days_before_year_def
      days_before_month_def is_leap_def mk_date_def)

lemma all_upto_iff: "all_upto P n \<longleftrightarrow> (\<forall>k \<le> n. P k)"
  by (induction n) (auto simp: le_Suc_eq)

lemma all_upto_numeral:
  "all_upto P (numeral k) = (P (numeral k) \<and> all_upto P (pred_numeral k))"
  by (simp add: numeral_eq_Suc)

text \<open>Each of the 153 offsets from 0 to 152 leads to a date of the window.\<close>

lemma days_ok: "all_upto day_ok 152"
  by (simp add: all_upto_numeral day_ok_def add_days_def ord2ymd_def Let_def
      to_ordinal_def days_before_year_def days_before_month_def days_in_month_def
      is_leap_def mk_date_def valid_datetime_def is_date_in_range_def datetime_le_def
      datetime_key_def)

lemma day_okD:
  assumes "k \<le> 152"
  obtains t where "add_days (mk_date 2024 1 1) k = Some t"
    "valid_datetime (mk_date (year t) (month t) (day t))" "1000 \<le> year t"
    "t = mk_date (year t) (month t) (day t)"
    "is_date_in_range t (mk_date 2024 1 1) (mk_date 2024 6 1)"
proof -
  from days_ok assms have "day_ok k"
    unfolding all_upto_iff by blast
  then obtain t where t: "add_days (mk_date 2024 1 1) k = Some t" "valid_datetime t"
    "hour t = 0" "minute t = 0" "second t = 0"
    "is_date_in_range t (mk_date 2024 1 1) (mk_date 2024 6 1)"
    by (auto simp: day_ok_def split: option.splits)
  from t(3-5) have m: "t = mk_date (year t) (month t) (day t)"
    by (cases t) (simp add: mk_date_def)
  from t(6) have "2024 \<le> year t"
    by (auto simp: is_date_in_range_def datetime_le_def datetime_key_def mk_date_def
        less_eq_prod_def)
  then have y: "1000 \<le> year t" by simp
  from t(2) m have v: "valid_datetime (mk_date (year t) (month t) (day t))" by simp
  from t(1) v y m t(6) show ?thesis by (rule that)
qed

lemma sample_review_ok:
  "\<exists>r. sample_review R company (mk_date 2024 1 1) 152 src i = Some r \<and> sample_ok src r"
proof -
  have "randint0 (R (8 * i)) 152 \<le> 152"
    by (simp add: randint0_def less_Suc_eq_le [symmetric])
  then obtain t where t: "add_days (mk_date 2024 1 1) (randint0 (R (8 * i)) 152) = Some t"
    "valid_datetime (mk_date (year t) (month t) (day t))" "1000 \<le> year t"
    "t = mk_date (year t) (month t) (day t)"
    "is_date_in_range t (mk_date 2024 1 1) (mk_date 2024 6 1)"
    by (rule day_okD)
  from parse_R1 [OF t(2,3)] t(4)
  have p: "parse_date (strftime t ''%Y-%m-%d'') = Some t" by simp
  from t(1) p t(5) show ?thesis
    unfolding sample_review_def Let_def sample_ok_def by auto
qed

lemma sample_loop_ok:
  assumes "\<forall>r \<in> set reviews. sample_ok src r"
  shows "\<exists>rs. sample_loop R company (mk_date 2024 1 1) 152 src is reviews = Some rs
           \<and> length rs = length reviews + length is \<and> (\<forall>r \<in> set rs. sample_ok src r)"
  using assms
proof (induction "is" arbitrary: reviews)
  case Nil
  then show ?case by simp
next
  case (Cons i "is")
  obtain r where r: "sample_review R company (mk_date 2024 1 1) 152 src i = Some r"
    "sample_ok src r"
    using sample_review_ok by blast
  from Cons.prems r(2) have "\<forall>x \<in> set (reviews @ [r]). sample_ok src x" by simp
  from Cons.IH [OF this] r(1) show ?case by simp
qed

lemma sort_newest_first_props:
  "length (sort_newest_first reviews) = length reviews"
  "set (sort_newest_first reviews) = set reviews"
  by (simp_all add: sort_newest_first_def)

lemma generate_sample_reviews_ok:
  "\<exists>rs. generate_sample_reviews R company (mk_date 2024 1 1) (mk_date 2024 6 1) src 10 = Some rs
        \<and> length rs = 10 \<and> (\<forall>r \<in> set rs. sample_ok src r)"
proof -
  have "\<forall>r \<in> set ([] :: review list). sample_ok src r" by simp
  from sample_loop_ok [OF this, of R company "[0..<10]"]
  obtain rs where rs: "sample_loop R company (mk_date 2024 1 1) 152 src [0..<10] [] = Some rs"
    "length rs = 10" "\<forall>r \<in> set rs. sample_ok src r"
    by auto
  then show ?thesis
    unfolding generate_sample_reviews_def delta_scenario Let_def
    by (simp add: sort_newest_first_props)
qed

text \<open>
  C8. For Notion on G2 with the window from the first of January to the first of June
  2024: when the loop ends with no review, whatever the site and whatever the random
  module gives, the result of \<open>scrape\<close> has exactly ten entries; each has the source
  \<open>g2\<close> and a date, written as \<open>YYYY-MM-DD\<close>, that \<open>parse_date\<close> reads and that lies in
  the window.
\<close>

theorem scrape_sample_data:
  assumes "final_reviews (scrape_loop (G2Scraper el nx) E (mk_date 2024 1 1) (mk_date 2024 6 1)
             (Some (get_company_url (G2Scraper el nx) ''Notion'')) 1 []) = []"
  shows "length (scrape (G2Scraper el nx) E R ''Notion'' (mk_date 2024 1 1) (mk_date 2024 6 1)) = 10
     \<and> (\<forall>r \<in> set (scrape (G2Scraper el nx) E R ''Notion'' (mk_date 2024 1 1) (mk_date 2024 6 1)).
           source r = ''g2''
           \<and> (\<exists>t. review_date r = strftime t ''%Y-%m-%d''
                  \<and> parse_date (review_date r) = Some t
                  \<and> is_date_in_range t (mk_date 2024 1 1) (mk_date 2024 6 1)))"
proof -
  obtain rs where rs:
    "generate_sample_reviews R ''Notion'' (mk_date 2024 1 1) (mk_date 2024 6 1) ''g2'' 10 = Some rs"
    "length rs = 10" "\<forall>r \<in> set rs. sample_ok ''g2'' r"
    using generate_sample_reviews_ok by blast
  have n: "get_source_name (G2Scraper el nx) = ''g2''"
    by (simp add: G2Scraper_def)
  have "scrape (G2Scraper el nx) E R ''Notion'' (mk_date 2024 1 1) (mk_date 2024 6 1) = rs"
    unfolding scrape_def Let_def using assms rs(1)
    by (simp add: scrape_loop_not_returned n)
  with rs(2,3) show ?thesis
    by (simp add: sample_ok_def)
qed

lemma blocked_run:
  "final_reviews (scrape_loop (G2Scraper (\<lambda>s. []) (\<lambda>s u. None)) blocked (mk_date 2024 1 1)
      (mk_date 2024 6 1)
      (Some (get_company_url (G2Scraper (\<lambda>s. []) (\<lambda>s u. None)) ''Notion'')) 1 []) = []"
  by (subst scrape_loop_simps) (simp add: blocked_def stop_run_def G2Scraper_def)

theorem scrape_sample_data_witness:
  "final_reviews (scrape_loop (G2Scraper (\<lambda>s. []) (\<lambda>s u. None)) blocked (mk_date 2024 1 1)
      (mk_date 2024 6 1)
      (Some (get_company_url (G2Scraper (\<lambda>s. []) (\<lambda>s u. None)) ''Notion'')) 1 []) = []
   \<and> length (scrape (G2Scraper (\<lambda>s. []) (\<lambda>s u. None)) blocked (\<lambda>n. n) ''Notion''
        (mk_date 2024 1 1) (mk_date 2024 6 1)) = 10
   \<and> source (hd (scrape (G2Scraper (\<lambda>s. []) (\<lambda>s u. None)) blocked (\<lambda>n. n) ''Notion''
        (mk_date 2024 1 1) (mk_date 2024 6 1))) = ''g2''"
proof -
  note t = scrape_sample_data [OF blocked_run, of "\<lambda>n. n"]
  from t have "scrape (G2Scraper (\<lambda>s. []) (\<lambda>s u. None)) blocked (\<lambda>n. n) ''Notion''
        (mk_date 2024 1 1) (mk_date 2024 6 1) \<noteq> []"
    by auto
  from hd_in_set [OF this] t blocked_run show ?thesis by blast
qed

end
